theory Spec2Isabelle
  imports Complex_Main "HOL-Library.AList" "HOL-Library.Log_Nat"
begin

section \<open>The test registry of the XRPL playground (app.js)\<close>

text \<open>
  The development follows \<^verbatim>\<open>app.js\<close>. Strings are lists of code units below 256; the
  DOM, toasts and local storage are not modelled. The clock (\<^verbatim>\<open>new Date().toISOString()\<close>)
  and the answers of the network client are inputs of the functions that read them.
\<close>

subsection \<open>Data model\<close>

text \<open>
  A block's \<^verbatim>\<open>value\<close> is a string typed into an input, or the record that the IOU and
  MPT inputs build (\<^verbatim>\<open>{currency, issuer, value}\<close>, \<^verbatim>\<open>{mpt_issuance_id, value}\<close>, all
  members strings), or absent (\<^verbatim>\<open>undefined\<close>/\<^verbatim>\<open>null\<close>).
\<close>

datatype raw_value = Absent | Scalar string | Record "(string \<times> string) list"

record block =
  fieldName :: string
  bvalue :: raw_value

text \<open>
  A test, as \<^verbatim>\<open>createTransaction\<close> makes it. \<^verbatim>\<open>null\<close> is \<open>None\<close>; the status is the string
  the code stores.
\<close>

record transaction =
  id_tx :: string
  name_tx :: string
  type_tx :: "string option"
  blocks :: "block list"
  status :: string
  expectedResult :: string
  actualResult :: "string option"
  submittedAt :: "string option"
  hash :: "string option"

text \<open>
  \<^verbatim>\<open>createTransaction(name)\<close>, for the id that \<^verbatim>\<open>generateTransactionId\<close> has returned and
  the name chosen (the one given, or \<^verbatim>\<open>Test N\<close>).
\<close>

definition createTransaction :: "string \<Rightarrow> string \<Rightarrow> transaction" where
  "createTransaction i nm =
     \<lparr>id_tx = i, name_tx = nm, type_tx = None, blocks = [], status = ''pending'',
      expectedResult = ''tesSUCCESS'', actualResult = None, submittedAt = None, hash = None\<rparr>"

subsection \<open>Status updates\<close>

text \<open>
  \<^verbatim>\<open>const t = xs.find(p); if (t) { mutate t }\<close>: the first element that satisfies the
  predicate is changed in place, the array is otherwise the same.
\<close>

fun modifyFirst :: "('a \<Rightarrow> bool) \<Rightarrow> ('a \<Rightarrow> 'a) \<Rightarrow> 'a list \<Rightarrow> 'a list" where
  "modifyFirst p f [] = []"
| "modifyFirst p f (x # xs) = (if p x then f x # xs else x # modifyFirst p f xs)"

text \<open>
  \<^verbatim>\<open>updateTransactionStatus(id, status, result = null)\<close>; \<open>now\<close> is the reading of the clock.
\<close>

definition setStatus :: "string \<Rightarrow> string option \<Rightarrow> string \<Rightarrow> transaction \<Rightarrow> transaction" where
  "setStatus st result now t =
     (let t1 = t\<lparr>status := st\<rparr>;
          t2 = (case result of None \<Rightarrow> t1 | Some r \<Rightarrow> t1\<lparr>actualResult := Some r\<rparr>)
      in if st = ''running'' then t2\<lparr>submittedAt := Some now\<rparr> else t2)"

definition updateTransactionStatus ::
  "string \<Rightarrow> string \<Rightarrow> string option \<Rightarrow> string \<Rightarrow> transaction list \<Rightarrow> transaction list" where
  "updateTransactionStatus i st result now txs =
     modifyFirst (\<lambda>tx. id_tx tx = i) (setStatus st result now) txs"

subsection \<open>JavaScript values and objects\<close>

text \<open>
  The values a transaction object holds. A number is given by its rational value (the
  builder produces integers and whatever \<^verbatim>\<open>JSON.parse\<close> returns). An object is the list
  of its own properties in insertion order; \<^verbatim>\<open>obj[k] = v\<close> is \<^const>\<open>AList.update\<close>, which
  overwrites in place or appends, and a key that \<^const>\<open>map_of\<close> does not find is a
  property the object does not have (reading it gives \<^verbatim>\<open>undefined\<close>).
\<close>

datatype jsval =
    JNull
  | JBool bool
  | JNum rat
  | JStr string
  | JArr "jsval list"
  | JObj "(string \<times> jsval) list"

type_synonym jsobj = "(string \<times> jsval) list"

text \<open>\<^verbatim>\<open>!!v\<close> for the value read from a property; \<open>None\<close> is \<^verbatim>\<open>undefined\<close>.\<close>

fun truthy :: "jsval option \<Rightarrow> bool" where
  "truthy None = False"
| "truthy (Some JNull) = False"
| "truthy (Some (JBool b)) = b"
| "truthy (Some (JNum n)) = (n \<noteq> 0)"
| "truthy (Some (JStr s)) = (s \<noteq> [])"
| "truthy (Some (JArr xs)) = True"
| "truthy (Some (JObj kvs)) = True"

subsection \<open>Field type resolver\<close>

text \<open>
  \<^verbatim>\<open>definitions.FIELDS\<close> is the list of \<^verbatim>\<open>[name, info]\<close> pairs of the catalog, loaded from
  \<^verbatim>\<open>definitions.json\<close>; the functions below read the \<^verbatim>\<open>type\<close> member of \<^verbatim>\<open>info\<close> only.
  The catalog is a parameter.
\<close>

record field_info =
  ftype :: string

type_synonym catalog = "(string \<times> field_info) list"

definition getFieldInfo :: "catalog \<Rightarrow> string \<Rightarrow> field_info option" where
  "getFieldInfo defs fname =
     (case find (\<lambda>(name, info). name = fname) defs of
        None \<Rightarrow> None
      | Some (name, info) \<Rightarrow> Some info)"

subsection \<open>parseInt with radix 10\<close>

text \<open>
  The white space \<^verbatim>\<open>parseInt\<close> and \<^verbatim>\<open>trim\<close> strip, among the code units below 256:
  TAB, LF, VT, FF, CR, SP and NBSP.
\<close>

definition isWhiteSpace :: "char \<Rightarrow> bool" where
  "isWhiteSpace c = (of_char c \<in> {9, 10, 11, 12, 13, 32, 160 :: nat})"

definition isDigit :: "char \<Rightarrow> bool" where
  "isDigit c = (48 \<le> (of_char c :: nat) \<and> (of_char c :: nat) \<le> 57)"

definition digitsValue :: "string \<Rightarrow> nat" where
  "digitsValue ds = foldl (\<lambda>acc c. 10 * acc + (of_char c - 48)) 0 ds"

text \<open>
  \<^verbatim>\<open>parseInt(s, 10)\<close>: leading white space is dropped, one sign is read, and the longest
  run of decimal digits that follows is the result; what comes after the run is ignored.
  \<open>None\<close> is \<^verbatim>\<open>NaN\<close> (no digit there). With radix 10 a prefix \<^verbatim>\<open>0x\<close> is not special.
  The number returned is the integer itself up to \<open>2 ^ 53\<close>; beyond, the runtime rounds it
  to a double, which this function does not follow.
\<close>

definition parseInt10 :: "string \<Rightarrow> int option" where
  "parseInt10 s =
     (let t = dropWhile isWhiteSpace s;
          neg = (t \<noteq> [] \<and> hd t = CHR ''-'');
          u = (if t \<noteq> [] \<and> (hd t = CHR ''-'' \<or> hd t = CHR ''+'') then tl t else t);
          ds = takeWhile isDigit u
      in if ds = [] then None
         else Some (if neg then - int (digitsValue ds) else int (digitsValue ds)))"

definition trim :: "string \<Rightarrow> string" where
  "trim s = rev (dropWhile isWhiteSpace (rev (dropWhile isWhiteSpace s)))"

subsection \<open>Transaction object builder\<close>

definition startsWith :: "string \<Rightarrow> string \<Rightarrow> bool" where
  "startsWith s p = (take (length p) s = p)"

text \<open>\<^verbatim>\<open>convertFieldValue(value, fieldInfo)\<close>, called with a string \<open>v\<close>.\<close>

definition convertFieldValue :: "string \<Rightarrow> field_info option \<Rightarrow> jsval" where
  "convertFieldValue v fieldInfo =
     (case fieldInfo of
        None \<Rightarrow> JStr v
      | Some info \<Rightarrow>
          if ftype info = ''Amount'' then JStr v
          else if startsWith (ftype info) ''UInt'' \<or> ftype info = ''Number'' then
            (case parseInt10 v of None \<Rightarrow> JStr v | Some num \<Rightarrow> JNum (of_int num))
          else JStr v)"

text \<open>
  The copy of an IOU or MPT record: \<^verbatim>\<open>cleanedObject[key] = String(block.value[key])\<close>
  for each key.
\<close>

definition cleanedObject :: "(string \<times> string) list \<Rightarrow> jsval" where
  "cleanedObject kvs = JObj (fold (\<lambda>(k, v) obj. AList.update k (JStr v) obj) kvs [])"

text \<open>
  The body of the \<^verbatim>\<open>forEach\<close> of \<^verbatim>\<open>buildTransactionObjectFromTest\<close>. \<open>jsonParse\<close> is
  the built-in \<^verbatim>\<open>JSON.parse\<close>, \<open>None\<close> when it throws.
\<close>

definition blockFromTest ::
  "catalog \<Rightarrow> (string \<Rightarrow> jsval option) \<Rightarrow> block \<Rightarrow> jsobj \<Rightarrow> jsobj" where
  "blockFromTest defs jsonParse b txObject =
     (case bvalue b of
        Absent \<Rightarrow> txObject
      | Record kvs \<Rightarrow> AList.update (fieldName b) (cleanedObject kvs) txObject
      | Scalar valueStr \<Rightarrow>
          if valueStr = [] then txObject
          else
            (let fieldInfo = getFieldInfo defs (fieldName b) in
             if (case fieldInfo of None \<Rightarrow> False | Some info \<Rightarrow> ftype info = ''Amount'') then
               AList.update (fieldName b) (convertFieldValue valueStr fieldInfo) txObject
             else
               (case jsonParse valueStr of
                  Some parsed \<Rightarrow> AList.update (fieldName b) parsed txObject
                | None \<Rightarrow>
                    AList.update (fieldName b) (convertFieldValue valueStr fieldInfo) txObject)))"

definition buildTransactionObjectFromTest ::
  "catalog \<Rightarrow> (string \<Rightarrow> jsval option) \<Rightarrow> transaction \<Rightarrow> jsobj" where
  "buildTransactionObjectFromTest defs jsonParse tx =
     fold (blockFromTest defs jsonParse) (blocks tx)
       [(''TransactionType'', case type_tx tx of None \<Rightarrow> JNull | Some ty \<Rightarrow> JStr ty)]"

text \<open>
  \<^verbatim>\<open>buildTransactionObject()\<close>, the builder of the JSON preview, on the type and the
  blocks it has picked (those of the current test, or the legacy globals).
\<close>

definition blockPreview :: "catalog \<Rightarrow> block \<Rightarrow> jsobj \<Rightarrow> jsobj" where
  "blockPreview defs b tr =
     (case bvalue b of
        Absent \<Rightarrow> tr
      | Record kvs \<Rightarrow> AList.update (fieldName b) (cleanedObject kvs) tr
      | Scalar valueStr \<Rightarrow>
          if valueStr = [] then tr
          else if trim valueStr \<noteq> [] then
            AList.update (fieldName b)
              (convertFieldValue valueStr (getFieldInfo defs (fieldName b))) tr
          else tr)"

definition buildTransactionObjectOf :: "catalog \<Rightarrow> string option \<Rightarrow> block list \<Rightarrow> jsobj" where
  "buildTransactionObjectOf defs txType bs =
     fold (blockPreview defs) bs
       (case txType of
          None \<Rightarrow> []
        | Some ty \<Rightarrow> if ty \<noteq> [] then [(''TransactionType'', JStr ty)] else [])"

subsection \<open>Application state\<close>

record account =
  address :: string
  seed :: "string option"

text \<open>
  What the program sends to the network client, and the entry and the return of
  \<^verbatim>\<open>runSingleTest\<close>; the trace of these events is kept in the state to state the order
  in which things happen.
\<close>

datatype event =
    Called string
  | Returned string
  | Connect "string option"
  | LedgerRequest
  | SubmitAndWait jsobj
  | Disconnect

fun isBoundary :: "event \<Rightarrow> bool" where
  "isBoundary (Called i) = True"
| "isBoundary (Returned i) = True"
| "isBoundary e = False"

text \<open>
  What \<^verbatim>\<open>handleDragStart\<close> stores of the palette block being dragged: a field block has
  its field name and its class, a transaction type block has the class
  \<^verbatim>\<open>transaction-type\<close> and the name of the type.
\<close>

record dragged_data =
  dragFieldName :: string
  dragBlockType :: string
  dragTransactionType :: "string option"

text \<open>
  The globals of \<^verbatim>\<open>app.js\<close> that the functions below read or write; \<open>validationMessages\<close>
  is the content of the element that \<^verbatim>\<open>showValidationMessage\<close> appends to, as pairs of
  message and type.
\<close>

record app_state =
  transactions :: "transaction list"
  currentTransactionId :: "string option"
  draggedData :: "dragged_data option"
  workspaceBlocks :: "block list"
  transactionType :: "string option"
  accounts :: "account list"
  currentNetwork :: string
  validationMessages :: "(string \<times> string) list"
  trace :: "event list"

definition getCurrentTransaction :: "app_state \<Rightarrow> transaction option" where
  "getCurrentTransaction s =
     (case currentTransactionId s of
        None \<Rightarrow> None
      | Some cur \<Rightarrow> if cur = [] then None else find (\<lambda>tx. id_tx tx = cur) (transactions s))"

definition buildTransactionObject :: "catalog \<Rightarrow> app_state \<Rightarrow> jsobj" where
  "buildTransactionObject defs s =
     (case getCurrentTransaction s of
        Some currentTx \<Rightarrow> buildTransactionObjectOf defs (type_tx currentTx) (blocks currentTx)
      | None \<Rightarrow> buildTransactionObjectOf defs (transactionType s) (workspaceBlocks s))"

subsection \<open>Adding a field\<close>

definition alreadyAdded :: "string \<Rightarrow> string" where
  "alreadyAdded fname = ''Field '' @ [char_of (34 :: nat)] @ fname @ [char_of (34 :: nat)] @ '' already added''"

text \<open>
  \<^verbatim>\<open>addFieldBlock(fieldName, blockType)\<close>; \<open>bodyFound\<close> says whether the document has the
  element \<^verbatim>\<open>transaction-body-<id>\<close> of the current test.
\<close>

definition addFieldBlock :: "string \<Rightarrow> bool \<Rightarrow> app_state \<Rightarrow> app_state" where
  "addFieldBlock fname bodyFound s =
     (case getCurrentTransaction s of
        None \<Rightarrow> s
      | Some tx \<Rightarrow>
          (case find (\<lambda>b. fieldName b = fname) (blocks tx) of
             Some existing \<Rightarrow>
               s\<lparr>validationMessages := validationMessages s @ [(alreadyAdded fname, ''warning'')]\<rparr>
           | None \<Rightarrow>
               if \<not> bodyFound then s
               else s\<lparr>transactions :=
                        modifyFirst (\<lambda>t. id_tx t = id_tx tx)
                          (\<lambda>t. t\<lparr>blocks := blocks t @ [\<lparr>fieldName = fname, bvalue = Scalar []\<rparr>]\<rparr>)
                          (transactions s),
                      workspaceBlocks :=
                        workspaceBlocks s @ [\<lparr>fieldName = fname, bvalue = Scalar []\<rparr>]\<rparr>))"

subsection \<open>Dropping a block on the workspace\<close>

text \<open>
  \<^verbatim>\<open>setTransactionType(typeName)\<close>, as far as the globals go; what it does to the document
  is not modelled.
\<close>

definition setTransactionType :: "string option \<Rightarrow> app_state \<Rightarrow> app_state" where
  "setTransactionType typeName s =
     (case getCurrentTransaction s of
        None \<Rightarrow> s
      | Some tx \<Rightarrow>
          s\<lparr>transactions :=
               modifyFirst (\<lambda>t. id_tx t = id_tx tx) (\<lambda>t. t\<lparr>type_tx := typeName\<rparr>) (transactions s),
             transactionType := typeName\<rparr>)"

definition clearValidationMessages :: "app_state \<Rightarrow> app_state" where
  "clearValidationMessages s = s\<lparr>validationMessages := []\<rparr>"

definition showValidationMessage :: "string \<Rightarrow> string \<Rightarrow> app_state \<Rightarrow> app_state" where
  "showValidationMessage message ty s =
     s\<lparr>validationMessages := validationMessages s @ [(message, ty)]\<rparr>"

text \<open>
  \<^verbatim>\<open>validateTransaction(transaction)\<close>. The pictograph that starts each of its messages is
  left out, strings being code units below 256 here.
\<close>

definition validateTransaction :: "jsobj \<Rightarrow> app_state \<Rightarrow> app_state" where
  "validateTransaction tr s =
     (let s1 = clearValidationMessages s in
      if \<not> truthy (map_of tr ''TransactionType'') then
        showValidationMessage ''Transaction Type is required'' ''error'' s1
      else
        (let warnings =
               (if \<not> truthy (map_of tr ''Account'') then [''Account field is recommended''] else []) @
               (if \<not> truthy (map_of tr ''Fee'') then [''Fee field is recommended''] else [])
         in if warnings \<noteq> [] then
              fold (\<lambda>warning. showValidationMessage warning ''warning'') warnings s1
            else showValidationMessage ''Transaction structure looks good!'' ''success'' s1))"

text \<open>
  \<^verbatim>\<open>updateJSONOutput()\<close>; the text it writes into the \<^verbatim>\<open>json-output\<close> element is not
  modelled.
\<close>

definition updateJSONOutput :: "catalog \<Rightarrow> app_state \<Rightarrow> app_state" where
  "updateJSONOutput defs s = validateTransaction (buildTransactionObject defs s) s"

text \<open>
  \<^verbatim>\<open>handleDrop(e)\<close>, the listener of the workspace's \<^verbatim>\<open>drop\<close> event and the caller of
  \<^verbatim>\<open>addFieldBlock\<close> for a dragged field; it runs to its end before the document is
  painted again.
\<close>

definition handleDrop :: "catalog \<Rightarrow> bool \<Rightarrow> app_state \<Rightarrow> app_state" where
  "handleDrop defs bodyFound s =
     (case draggedData s of
        None \<Rightarrow> s
      | Some d \<Rightarrow>
          (let s1 = (if dragBlockType d = ''transaction-type''
                     then setTransactionType (dragTransactionType d) s
                     else addFieldBlock (dragFieldName d) bodyFound s)
           in updateJSONOutput defs (s1\<lparr>draggedData := None\<rparr>)))"

subsection \<open>Test runner\<close>

text \<open>
  The first match of \<^verbatim>\<open>/(te[cflmrs][A-Z_]+)/\<close> in a string: \<open>matchHere\<close> tries the
  pattern at the head of the string (the run of \<^verbatim>\<open>[A-Z_]\<close> is greedy and nothing follows
  it in the pattern), \<open>extractResultCode\<close> tries every start from left to right.
\<close>

definition isCodeChar :: "char \<Rightarrow> bool" where
  "isCodeChar c = ((65 \<le> (of_char c :: nat) \<and> (of_char c :: nat) \<le> 90) \<or> c = CHR ''_'')"

fun matchHere :: "string \<Rightarrow> string option" where
  "matchHere (a # b # c # rest) =
     (if a = CHR ''t'' \<and> b = CHR ''e'' \<and> c \<in> set ''cflmrs'' \<and> takeWhile isCodeChar rest \<noteq> []
      then Some (a # b # c # takeWhile isCodeChar rest) else None)"
| "matchHere s = None"

fun extractResultCode :: "string \<Rightarrow> string option" where
  "extractResultCode [] = None"
| "extractResultCode (c # cs) =
     (case matchHere (c # cs) of
        Some code \<Rightarrow> Some code
      | None \<Rightarrow> extractResultCode cs)"

definition NETWORK_ENDPOINTS :: "(string \<times> string) list" where
  "NETWORK_ENDPOINTS =
     [(''mainnet'', ''wss://xrplcluster.com''),
      (''testnet'', ''wss://s.altnet.rippletest.net:51233''),
      (''devnet'', ''wss://s.devnet.rippletest.net:51233'')]"

text \<open>
  What the outside answers during one run of \<^verbatim>\<open>runSingleTest\<close>: for each call of the
  client library either the message of the error it throws (\<open>Some\<close>, \<open>Inl\<close>) or its result;
  and the two readings of the clock.
\<close>

record run_env =
  connectAns :: "string option"
  walletAns :: "string + string"
  ledgerAns :: "string + int"
  submitAns :: "string + string \<times> string"
  disconnectAns :: "string option"
  clockRunning :: string
  clockDone :: string

text \<open>
  The end of the \<^verbatim>\<open>try\<close> block: cleaning, \<^verbatim>\<open>submitAndWait\<close>, \<^verbatim>\<open>disconnect\<close>. The result is
  the calls made and either the message of the error thrown or
  \<^verbatim>\<open>(result.result.meta.TransactionResult, result.result.hash)\<close>.
\<close>

definition submitCleaned :: "run_env \<Rightarrow> jsobj \<Rightarrow> event list \<times> (string + string \<times> string)" where
  "submitCleaned env txObject =
     (let cleanedTxObject = filter (\<lambda>(key, v). v \<noteq> JNull \<and> v \<noteq> JStr []) txObject in
      case submitAns env of
        Inl err \<Rightarrow> ([SubmitAndWait cleanedTxObject], Inl err)
      | Inr res \<Rightarrow>
          (case disconnectAns env of
             Some err \<Rightarrow> ([SubmitAndWait cleanedTxObject, Disconnect], Inl err)
           | None \<Rightarrow> ([SubmitAndWait cleanedTxObject, Disconnect], Inr res)))"

text \<open>The \<^verbatim>\<open>try\<close> block from \<^verbatim>\<open>new xrpl.Client(endpoint)\<close> on.\<close>

definition clientSession ::
  "run_env \<Rightarrow> string option \<Rightarrow> jsobj \<Rightarrow> event list \<times> (string + string \<times> string)" where
  "clientSession env endpoint txObject =
     (case connectAns env of
        Some err \<Rightarrow> ([Connect endpoint], Inl err)
      | None \<Rightarrow>
          (case walletAns env of
             Inl err \<Rightarrow> ([Connect endpoint], Inl err)
           | Inr walletAddress \<Rightarrow>
               (let tx1 = (if \<not> truthy (map_of txObject ''Account'')
                           then AList.update ''Account'' (JStr walletAddress) txObject
                           else txObject)
                in if \<not> truthy (map_of tx1 ''LastLedgerSequence'') then
                     (case ledgerAns env of
                        Inl err \<Rightarrow> ([Connect endpoint, LedgerRequest], Inl err)
                      | Inr ledger_index \<Rightarrow>
                          (let (calls, r) =
                                 submitCleaned env
                                   (AList.update ''LastLedgerSequence''
                                      (JNum (of_int ledger_index + 5)) tx1)
                           in ([Connect endpoint, LedgerRequest] @ calls, r)))
                   else (let (calls, r) = submitCleaned env tx1
                         in ([Connect endpoint] @ calls, r)))))"

text \<open>
  The two endings of \<^verbatim>\<open>runSingleTest\<close>: the rest of the \<^verbatim>\<open>try\<close> block after
  \<^verbatim>\<open>disconnect\<close>, and the \<^verbatim>\<open>catch\<close> block. A thrown error is an \<^verbatim>\<open>Error\<close> object, given by
  its \<^verbatim>\<open>message\<close>.
\<close>

definition recordSuccess ::
  "run_env \<Rightarrow> string \<Rightarrow> transaction \<Rightarrow> string \<times> string \<Rightarrow> transaction list \<Rightarrow> transaction list" where
  "recordSuccess env transactionId tx res txs =
     (case res of (result, h) \<Rightarrow>
        updateTransactionStatus transactionId
          (if result = expectedResult tx then ''passed'' else ''failed'') (Some result) (clockDone env)
          (modifyFirst (\<lambda>t. id_tx t = transactionId)
             (\<lambda>t. t\<lparr>actualResult := Some result, hash := Some h,
                    submittedAt := Some (clockDone env)\<rparr>) txs))"

text \<open>The \<^verbatim>\<open>actualResult\<close> that the \<^verbatim>\<open>catch\<close> block computes from \<^verbatim>\<open>error.message\<close>.\<close>

definition resultOfError :: "string \<Rightarrow> string" where
  "resultOfError message =
     (case extractResultCode message of
        Some code \<Rightarrow> code
      | None \<Rightarrow> message)"

definition recordError ::
  "run_env \<Rightarrow> string \<Rightarrow> transaction \<Rightarrow> string \<Rightarrow> transaction list \<Rightarrow> transaction list" where
  "recordError env transactionId tx message txs =
     (let result = resultOfError message
      in updateTransactionStatus transactionId
           (if result = expectedResult tx then ''passed'' else ''failed'') (Some result) (clockDone env)
           (modifyFirst (\<lambda>t. id_tx t = transactionId) (\<lambda>t. t\<lparr>actualResult := Some result\<rparr>) txs))"

text \<open>The body of \<^verbatim>\<open>runSingleTest(transactionId)\<close>.\<close>

definition runSingleTestBody ::
  "catalog \<Rightarrow> (string \<Rightarrow> jsval option) \<Rightarrow> run_env \<Rightarrow> string \<Rightarrow> app_state \<Rightarrow> app_state" where
  "runSingleTestBody defs jsonParse env transactionId s =
     (case find (\<lambda>tx. id_tx tx = transactionId) (transactions s) of
        None \<Rightarrow> s
      | Some tx \<Rightarrow>
          if type_tx tx = None \<or> type_tx tx = Some [] then
            s\<lparr>transactions :=
                updateTransactionStatus transactionId ''failed'' (Some ''No transaction type'')
                  (clockDone env) (transactions s)\<rparr>
          else
            (let txObject = buildTransactionObjectFromTest defs jsonParse tx in
             case find (\<lambda>acc. seed acc \<noteq> None \<and> seed acc \<noteq> Some []) (accounts s) of
               None \<Rightarrow>
                 s\<lparr>transactions :=
                     updateTransactionStatus transactionId ''failed'' (Some ''No signing account'')
                       (clockDone env) (transactions s)\<rparr>
             | Some signingAccount \<Rightarrow>
                 (let endpoint = map_of NETWORK_ENDPOINTS (currentNetwork s);
                      running = updateTransactionStatus transactionId ''running'' None
                                  (clockRunning env) (transactions s);
                      (calls, outcome) = clientSession env endpoint txObject
                  in s\<lparr>transactions :=
                          (case outcome of
                             Inr res \<Rightarrow> recordSuccess env transactionId tx res running
                           | Inl message \<Rightarrow> recordError env transactionId tx message running),
                        trace := trace s @ calls\<rparr>)))"

definition runSingleTest ::
  "catalog \<Rightarrow> (string \<Rightarrow> jsval option) \<Rightarrow> run_env \<Rightarrow> string \<Rightarrow> app_state \<Rightarrow> app_state" where
  "runSingleTest defs jsonParse env transactionId s =
     (let s1 = runSingleTestBody defs jsonParse env transactionId
                 (s\<lparr>trace := trace s @ [Called transactionId]\<rparr>)
      in s1\<lparr>trace := trace s1 @ [Returned transactionId]\<rparr>)"

text \<open>
  The calls of the network client that \<^verbatim>\<open>runSingleTest(transactionId)\<close> makes when it starts
  in the state \<open>s\<close>: none when the test is missing, has no type, or no account can sign,
  and otherwise those of the \<^verbatim>\<open>try\<close> block on the object built from the test.
\<close>

definition callsOfRun ::
  "catalog \<Rightarrow> (string \<Rightarrow> jsval option) \<Rightarrow> run_env \<Rightarrow> app_state \<Rightarrow> string \<Rightarrow> event list" where
  "callsOfRun defs jsonParse env s transactionId =
     (case find (\<lambda>tx. id_tx tx = transactionId) (transactions s) of
        None \<Rightarrow> []
      | Some tx \<Rightarrow>
          if type_tx tx = None \<or> type_tx tx = Some [] then []
          else
            (case find (\<lambda>acc. seed acc \<noteq> None \<and> seed acc \<noteq> Some []) (accounts s) of
               None \<Rightarrow> []
             | Some signingAccount \<Rightarrow>
                 fst (clientSession env (map_of NETWORK_ENDPOINTS (currentNetwork s))
                        (buildTransactionObjectFromTest defs jsonParse tx))))"

text \<open>
  \<^verbatim>\<open>runAllTests()\<close>: the reset, then the loop \<^verbatim>\<open>for (const transaction of transactions)\<close>
  with its \<^verbatim>\<open>await\<close>. The runs neither add nor remove a test nor change an id, so the loop
  visits the ids the array holds when it starts; \<open>envs k\<close> is what the outside answers
  during the run number \<open>k\<close>.
\<close>

definition resetTest :: "transaction \<Rightarrow> transaction" where
  "resetTest tx = tx\<lparr>status := ''pending'', actualResult := None, hash := None, submittedAt := None\<rparr>"

fun runEach ::
  "catalog \<Rightarrow> (string \<Rightarrow> jsval option) \<Rightarrow> (nat \<Rightarrow> run_env) \<Rightarrow> nat \<Rightarrow> string list \<Rightarrow>
   app_state \<Rightarrow> app_state" where
  "runEach defs jsonParse envs k [] s = s"
| "runEach defs jsonParse envs k (i # ids) s =
     runEach defs jsonParse envs (Suc k) ids (runSingleTest defs jsonParse (envs k) i s)"

definition runAllTests ::
  "catalog \<Rightarrow> (string \<Rightarrow> jsval option) \<Rightarrow> (nat \<Rightarrow> run_env) \<Rightarrow> app_state \<Rightarrow> app_state" where
  "runAllTests defs jsonParse envs s =
     (let s0 = s\<lparr>transactions := map resetTest (transactions s)\<rparr>
      in runEach defs jsonParse envs 0 (map id_tx (transactions s0)) s0)"

text \<open>
  The part of a test, and of the state, that decides which client calls a run makes; the
  runs do not change it.
\<close>

definition core :: "transaction \<Rightarrow> string \<times> string option \<times> block list" where
  "core t = (id_tx t, type_tx t, blocks t)"

definition static :: "app_state \<Rightarrow> (string \<times> string option \<times> block list) list \<times> account list \<times> string" where
  "static s = (map core (transactions s), accounts s, currentNetwork s)"

text \<open>A test that has been graded.\<close>

definition finished :: "transaction \<Rightarrow> bool" where
  "finished t = (status t = ''passed'' \<or> status t = ''failed'')"

subsection \<open>Result aggregator\<close>

text \<open>
  The pass rate is computed on doubles. A finite double is given by its rational value;
  \<open>roundToDouble\<close> is the rounding every arithmetic operation ends with: to the nearest
  number with a significand of 53 bits, a tie to the even significand. \<open>ilog2 x\<close> is the
  exponent \<open>e\<close> with \<open>2 ^ e \<le> x < 2 ^ (e + 1)\<close>. Subnormal numbers and overflow are not
  modelled; the quotients and products below are far from both.
\<close>

definition roundEven :: "rat \<Rightarrow> int" where
  "roundEven x =
     (let n = \<lfloor>x\<rfloor>; d = x - of_int n
      in if d < 1 / 2 then n else if 1 / 2 < d then n + 1 else if even n then n else n + 1)"

definition ilog2 :: "rat \<Rightarrow> int" where
  "ilog2 x =
     (case quotient_of x of (a, b) \<Rightarrow>
        let d = bitlen a - bitlen b in if 2 powi d \<le> x then d else d - 1)"

definition roundToDouble :: "rat \<Rightarrow> rat" where
  "roundToDouble x =
     (if x = 0 then 0
      else let u = 2 powi (ilog2 \<bar>x\<bar> - 52)
           in sgn x * of_int (roundEven (\<bar>x\<bar> / u)) * u)"

text \<open>\<^verbatim>\<open>Math.round\<close>: the nearest integer, a tie towards \<open>+\<infinity>\<close>.\<close>

definition mathRound :: "rat \<Rightarrow> int" where
  "mathRound x = \<lfloor>x + 1 / 2\<rfloor>"

text \<open>
  \<^verbatim>\<open>total > 0 ? Math.round((passed / total) * 100) : 0\<close> on the two counts, as
  \<^verbatim>\<open>renderTestResultsSummary\<close>, \<^verbatim>\<open>downloadTestReportJSON\<close> and
  \<^verbatim>\<open>downloadTestReportMarkdown\<close> compute it.
\<close>

definition passRateOf :: "nat \<Rightarrow> nat \<Rightarrow> int" where
  "passRateOf passedN totalN =
     (if totalN > 0
      then mathRound (roundToDouble (roundToDouble (of_nat passedN / of_nat totalN) * 100))
      else 0)"

definition countStatus :: "string \<Rightarrow> transaction list \<Rightarrow> nat" where
  "countStatus st txs = length (filter (\<lambda>tx. status tx = st) txs)"

definition passRate :: "transaction list \<Rightarrow> int" where
  "passRate txs = passRateOf (countStatus ''passed'' txs) (length txs)"

text \<open>
  The pass rate in the words of the specification: \<open>round(100 * passed / total)\<close> in exact
  arithmetic, a half rounded up, and 0 when \<open>total = 0\<close>.
\<close>

definition passRateSpec :: "transaction list \<Rightarrow> int" where
  "passRateSpec txs =
     (if length txs = 0 then 0
      else mathRound (100 * of_nat (countStatus ''passed'' txs) / of_nat (length txs)))"

subsection \<open>Examples\<close>

text \<open>Some entries of \<^verbatim>\<open>FIELDS\<close> in \<^verbatim>\<open>definitions.json\<close>.\<close>

definition sampleFields :: catalog where
  "sampleFields =
     [(''TransactionType'', \<lparr>ftype = ''UInt16''\<rparr>),
      (''SetFlag'', \<lparr>ftype = ''UInt32''\<rparr>),
      (''LastLedgerSequence'', \<lparr>ftype = ''UInt32''\<rparr>),
      (''Amount'', \<lparr>ftype = ''Amount''\<rparr>),
      (''Account'', \<lparr>ftype = ''AccountID''\<rparr>),
      (''Destination'', \<lparr>ftype = ''AccountID''\<rparr>)]"

text \<open>
  \<^verbatim>\<open>JSON.parse\<close> on the strings of the examples: an unsigned decimal literal without a
  leading zero is its number, and the other strings used below are no JSON text.
\<close>

definition sampleParse :: "string \<Rightarrow> jsval option" where
  "sampleParse v =
     (if v \<noteq> [] \<and> list_all isDigit v \<and> (hd v \<noteq> CHR ''0'' \<or> length v = 1)
      then Some (JNum (of_nat (digitsValue v))) else None)"

definition sampleAccount :: account where
  "sampleAccount = \<lparr>address = ''rN7n7otQDd6FczFgLdlqtyMVrn3HMfgnHf'', seed = Some ''sEdSampleSeed''\<rparr>"

definition sampleState :: "transaction list \<Rightarrow> app_state" where
  "sampleState txs =
     \<lparr>transactions = txs, currentTransactionId = (case txs of [] \<Rightarrow> None | t # _ \<Rightarrow> Some (id_tx t)),
      draggedData = None, workspaceBlocks = [], transactionType = None, accounts = [sampleAccount],
      currentNetwork = ''testnet'', validationMessages = [], trace = []\<rparr>"

text \<open>The payment of \<^verbatim>\<open>loadExample\<close>, and the same test with blank values typed in.\<close>

definition samplePayment :: transaction where
  "samplePayment =
     (createTransaction ''tx-1'' ''Test 1'')
       \<lparr>type_tx := Some ''Payment'',
        blocks := [\<lparr>fieldName = ''Destination'', bvalue = Scalar ''rLHzPsX6oXkzU9rFkRrJYTetvcqrKKKKKK''\<rparr>,
                   \<lparr>fieldName = ''Amount'', bvalue = Scalar ''1000000''\<rparr>]\<rparr>"

definition blankPayment :: transaction where
  "blankPayment =
     (createTransaction ''tx-1'' ''Test 1'')
       \<lparr>type_tx := Some ''Payment'',
        blocks := [\<lparr>fieldName = ''Destination'', bvalue = Scalar ''  ''\<rparr>,
                   \<lparr>fieldName = ''Amount'', bvalue = Scalar ''  ''\<rparr>]\<rparr>"

text \<open>
  Two runs: one where every call of the client succeeds and the ledger answers with a
  result code and a hash, one where \<^verbatim>\<open>submitAndWait\<close> throws an error with a message.
\<close>

definition answeredEnv :: "string \<Rightarrow> string \<Rightarrow> run_env" where
  "answeredEnv code h =
     \<lparr>connectAns = None, walletAns = Inr ''rN7n7otQDd6FczFgLdlqtyMVrn3HMfgnHf'',
      ledgerAns = Inr 1000, submitAns = Inr (code, h), disconnectAns = None,
      clockRunning = ''2025-01-01T00:00:00.000Z'', clockDone = ''2025-01-01T00:00:05.000Z''\<rparr>"

definition throwingEnv :: "string \<Rightarrow> run_env" where
  "throwingEnv message =
     \<lparr>connectAns = None, walletAns = Inr ''rN7n7otQDd6FczFgLdlqtyMVrn3HMfgnHf'',
      ledgerAns = Inr 1000, submitAns = Inl message, disconnectAns = None,
      clockRunning = ''2025-01-01T00:00:00.000Z'', clockDone = ''2025-01-01T00:00:05.000Z''\<rparr>"

text \<open>
  A registry of three tests: one without a type, two payments; and the answers of the
  outside during a batch: the second run is validated, the others throw.
\<close>

definition sampleRegistry :: "transaction list" where
  "sampleRegistry =
     [createTransaction ''tx-1'' ''Test 1'',
      samplePayment\<lparr>id_tx := ''tx-2'', name_tx := ''Test 2''\<rparr>,
      samplePayment\<lparr>id_tx := ''tx-3'', name_tx := ''Test 3''\<rparr>]"

definition sampleEnvs :: "nat \<Rightarrow> run_env" where
  "sampleEnvs k =
     (if k = 1 then answeredEnv ''tesSUCCESS'' ''E3FE6EA3D48F0C2B639448020EA4F03D4F4F8FFDB243A852A0F59177921B4879''
      else throwingEnv ''Transaction failed, tecNO_DST: Destination does not exist.'')"

text \<open>The payment as the current test, with the palette block of \<^verbatim>\<open>Amount\<close> being dragged.\<close>

definition draggingAmount :: app_state where
  "draggingAmount =
     (sampleState [samplePayment])
       \<lparr>draggedData :=
          Some \<lparr>dragFieldName = ''Amount'', dragBlockType = ''amount-field'',
                dragTransactionType = None\<rparr>\<rparr>"


text \<open>
  Graded registries: \<open>gradedTests n k\<close> has \<open>n\<close> tests with distinct ids, the first \<open>k\<close>
  of them \<^verbatim>\<open>passed\<close> and the others \<^verbatim>\<open>failed\<close>.
\<close>

definition gradedTests :: "nat \<Rightarrow> nat \<Rightarrow> transaction list" where
  "gradedTests n k =
     map (\<lambda>j. (createTransaction (''tx-'' @ replicate j CHR ''i'') ''Test'')
                 \<lparr>status := (if j < k then ''passed'' else ''failed'')\<rparr>) [0..<n]"

section \<open>Properties\<close>

subsection \<open>Helper lemmas\<close>

lemma modifyFirst_absent: "\<forall>x \<in> set xs. \<not> p x \<Longrightarrow> modifyFirst p f xs = xs"
  by (induction xs) auto

lemma modifyFirst_split:
  "\<forall>x \<in> set pre. \<not> p x \<Longrightarrow> p t \<Longrightarrow> modifyFirst p f (pre @ t # post) = pre @ f t # post"
  by (induction pre) auto

subsection \<open>Status updates leave everything else alone\<close>

text \<open>
  C10. \<^verbatim>\<open>updateTransactionStatus\<close> with an id that no test carries returns the registry
  as it was. For the first test \<open>t\<close> carrying the id, with the result argument omitted or
  \<^verbatim>\<open>null\<close>, the registry afterwards differs from the one before in that test only, and
  there in \<open>status\<close> only, and in \<open>submittedAt\<close> exactly when the new status is
  \<^verbatim>\<open>running\<close>; the recorded \<open>actualResult\<close> is the one from before.
\<close>

theorem updateTransactionStatus_frame:
  "(i \<notin> id_tx ` set txs \<longrightarrow> updateTransactionStatus i st result now txs = txs) \<and>
   (txs = pre @ t # post \<and> i \<notin> id_tx ` set pre \<and> id_tx t = i \<longrightarrow>
      updateTransactionStatus i st None now txs =
        pre @ t\<lparr>status := st,
                submittedAt := (if st = ''running'' then Some now else submittedAt t)\<rparr> # post \<and>
      actualResult (updateTransactionStatus i st None now txs ! length pre) = actualResult t)"
proof (intro conjI impI)
  assume "i \<notin> id_tx ` set txs"
  then show "updateTransactionStatus i st result now txs = txs"
    unfolding updateTransactionStatus_def by (intro modifyFirst_absent) auto
next
  assume h: "txs = pre @ t # post \<and> i \<notin> id_tx ` set pre \<and> id_tx t = i"
  then have a: "\<forall>x \<in> set pre. \<not> id_tx x = i" by blast
  from h have "updateTransactionStatus i st None now txs = pre @ setStatus st None now t # post"
    unfolding updateTransactionStatus_def by (simp add: modifyFirst_split [OF a])
  moreover have "setStatus st None now t =
      t\<lparr>status := st, submittedAt := (if st = ''running'' then Some now else submittedAt t)\<rparr>"
    by (simp add: setStatus_def)
  ultimately show upd: "updateTransactionStatus i st None now txs =
      pre @ t\<lparr>status := st,
              submittedAt := (if st = ''running'' then Some now else submittedAt t)\<rparr> # post"
    by simp
  show "actualResult (updateTransactionStatus i st None now txs ! length pre) = actualResult t"
    by (simp add: upd)
qed

theorem updateTransactionStatus_frame_witness:
  "''tx-9'' \<notin> id_tx ` set [createTransaction ''tx-1'' ''Test 1''] \<and>
   updateTransactionStatus ''tx-9'' ''failed'' (Some ''boom'') ''T1''
     [createTransaction ''tx-1'' ''Test 1''] = [createTransaction ''tx-1'' ''Test 1''] \<and>
   updateTransactionStatus ''tx-2'' ''running'' None ''T1''
     [createTransaction ''tx-1'' ''Test 1'',
      (createTransaction ''tx-2'' ''Test 2'')\<lparr>status := ''failed'', actualResult := Some ''tecNO_DST''\<rparr>,
      createTransaction ''tx-2'' ''Copy''] =
     [createTransaction ''tx-1'' ''Test 1'',
      (createTransaction ''tx-2'' ''Test 2'')
        \<lparr>status := ''running'', actualResult := Some ''tecNO_DST'', submittedAt := Some ''T1''\<rparr>,
      createTransaction ''tx-2'' ''Copy'']"
  using
    updateTransactionStatus_frame
      [where i = "''tx-9''" and txs = "[createTransaction ''tx-1'' ''Test 1'']"
         and st = "''failed''" and result = "Some ''boom''" and now = "''T1''"]
    updateTransactionStatus_frame
      [where i = "''tx-2''" and st = "''running''" and now = "''T1''"
         and pre = "[createTransaction ''tx-1'' ''Test 1'']"
         and t = "(createTransaction ''tx-2'' ''Test 2'')
                    \<lparr>status := ''failed'', actualResult := Some ''tecNO_DST''\<rparr>"
         and post = "[createTransaction ''tx-2'' ''Copy'']"
         and txs = "[createTransaction ''tx-1'' ''Test 1'',
                     (createTransaction ''tx-2'' ''Test 2'')
                       \<lparr>status := ''failed'', actualResult := Some ''tecNO_DST''\<rparr>,
                     createTransaction ''tx-2'' ''Copy'']"]
  by (simp add: createTransaction_def)

subsection \<open>Helper lemmas for the builders\<close>

lemmas sample_defs =
  createTransaction_def sampleFields_def sampleParse_def sampleState_def sampleAccount_def
  getFieldInfo_def isDigit_def isWhiteSpace_def digitsValue_def

lemma map_of_update_other: "k \<noteq> f \<Longrightarrow> map_of (AList.update k v obj) f = map_of obj f"
  by (simp add: update_conv')

lemma map_of_update_same: "map_of (AList.update f v obj) f = Some v"
  by (simp add: update_conv')

lemma convertFieldValue_Amount:
  "ftype info = ''Amount'' \<Longrightarrow> convertFieldValue v (Some info) = JStr v"
  by (simp add: convertFieldValue_def)

lemma blockFromTest_other:
  "fieldName b \<noteq> f \<Longrightarrow> map_of (blockFromTest defs jp b obj) f = map_of obj f"
  by (simp add: blockFromTest_def map_of_update_other Let_def split: raw_value.splits option.splits)

lemma blockPreview_other:
  "fieldName b \<noteq> f \<Longrightarrow> map_of (blockPreview defs b obj) f = map_of obj f"
  by (simp add: blockPreview_def map_of_update_other split: raw_value.splits)

lemma fold_blockFromTest_other:
  "f \<notin> fieldName ` set bs \<Longrightarrow> map_of (fold (blockFromTest defs jp) bs obj) f = map_of obj f"
  by (induction bs arbitrary: obj) (simp_all add: blockFromTest_other [OF not_sym])

lemma fold_blockPreview_other:
  "f \<notin> fieldName ` set bs \<Longrightarrow> map_of (fold (blockPreview defs) bs obj) f = map_of obj f"
  by (induction bs arbitrary: obj) (simp_all add: blockPreview_other [OF not_sym])

lemma blockFromTest_Amount:
  "getFieldInfo defs f = Some info \<Longrightarrow> ftype info = ''Amount'' \<Longrightarrow>
   blockFromTest defs jp \<lparr>fieldName = f, bvalue = Scalar v\<rparr> obj =
     (if v = [] then obj else AList.update f (JStr v) obj)"
  by (simp add: blockFromTest_def convertFieldValue_Amount)

lemma blockPreview_Amount:
  "getFieldInfo defs f = Some info \<Longrightarrow> ftype info = ''Amount'' \<Longrightarrow>
   blockPreview defs \<lparr>fieldName = f, bvalue = Scalar v\<rparr> obj =
     (if trim v = [] then obj else AList.update f (JStr v) obj)"
  by (auto simp add: blockPreview_def convertFieldValue_Amount trim_def)

lemma blockFromTest_not_num:
  assumes "getFieldInfo defs f = Some info" "ftype info = ''Amount''"
    and "\<forall>n. map_of obj f \<noteq> Some (JNum n)"
  shows "\<forall>n. map_of (blockFromTest defs jp b obj) f \<noteq> Some (JNum n)"
proof (cases "fieldName b = f")
  case False
  then show ?thesis using assms(3) by (simp add: blockFromTest_other)
next
  case True
  then show ?thesis using assms
    by (cases "bvalue b")
       (simp_all add: blockFromTest_def convertFieldValue_Amount map_of_update_same cleanedObject_def)
qed

lemma blockPreview_not_num:
  assumes "getFieldInfo defs f = Some info" "ftype info = ''Amount''"
    and "\<forall>n. map_of obj f \<noteq> Some (JNum n)"
  shows "\<forall>n. map_of (blockPreview defs b obj) f \<noteq> Some (JNum n)"
proof (cases "fieldName b = f")
  case False
  then show ?thesis using assms(3) by (simp add: blockPreview_other)
next
  case True
  then show ?thesis using assms
    by (cases "bvalue b")
       (simp_all add: blockPreview_def convertFieldValue_Amount map_of_update_same cleanedObject_def)
qed

lemma fold_blockFromTest_not_num:
  assumes "getFieldInfo defs f = Some info" "ftype info = ''Amount''"
  shows "\<forall>n. map_of obj f \<noteq> Some (JNum n) \<Longrightarrow>
         \<forall>n. map_of (fold (blockFromTest defs jp) bs obj) f \<noteq> Some (JNum n)"
proof (induction bs arbitrary: obj)
  case Nil
  then show ?case by simp
next
  case (Cons b bs)
  have "\<forall>n. map_of (blockFromTest defs jp b obj) f \<noteq> Some (JNum n)"
    by (rule blockFromTest_not_num [OF assms Cons.prems])
  then show ?case using Cons.IH by simp
qed

lemma fold_blockPreview_not_num:
  assumes "getFieldInfo defs f = Some info" "ftype info = ''Amount''"
  shows "\<forall>n. map_of obj f \<noteq> Some (JNum n) \<Longrightarrow>
         \<forall>n. map_of (fold (blockPreview defs) bs obj) f \<noteq> Some (JNum n)"
proof (induction bs arbitrary: obj)
  case Nil
  then show ?case by simp
next
  case (Cons b bs)
  have "\<forall>n. map_of (blockPreview defs b obj) f \<noteq> Some (JNum n)"
    by (rule blockPreview_not_num [OF assms Cons.prems])
  then show ?case using Cons.IH by simp
qed

lemma buildTransactionObjectOf_not_num:
  assumes "getFieldInfo defs f = Some info" "ftype info = ''Amount''"
  shows "\<forall>n. map_of (buildTransactionObjectOf defs ty bs) f \<noteq> Some (JNum n)"
  unfolding buildTransactionObjectOf_def
  by (rule fold_blockPreview_not_num [OF assms]) (simp split: option.splits)

lemma digit_not_white: "isDigit c \<Longrightarrow> \<not> isWhiteSpace c"
  by (auto simp: isDigit_def isWhiteSpace_def)

lemma sign_not_white: "\<not> isWhiteSpace CHR ''-''" "\<not> isWhiteSpace CHR ''+''"
  by (simp_all add: isWhiteSpace_def)

lemma sign_not_digit: "\<not> isDigit CHR ''-''" "\<not> isDigit CHR ''+''"
  by (simp_all add: isDigit_def)

lemma dropWhile_white_prefix:
  "list_all isWhiteSpace ws \<Longrightarrow> u = [] \<or> \<not> isWhiteSpace (hd u) \<Longrightarrow>
   dropWhile isWhiteSpace (ws @ u) = u"
  by (cases u) (auto simp: list_all_iff dropWhile_append)

lemma takeWhile_digit_run:
  "list_all isDigit ds \<Longrightarrow> rest = [] \<or> \<not> isDigit (hd rest) \<Longrightarrow>
   takeWhile isDigit (ds @ rest) = ds"
  by (cases rest) (auto simp: list_all_iff takeWhile_append)

lemma parseInt10_skip_white:
  assumes "list_all isWhiteSpace ws" and "u = [] \<or> \<not> isWhiteSpace (hd u)"
  shows "parseInt10 (ws @ u) =
     (let ds = takeWhile isDigit
                 (if u \<noteq> [] \<and> (hd u = CHR ''-'' \<or> hd u = CHR ''+'') then tl u else u)
      in if ds = [] then None
         else Some (if u \<noteq> [] \<and> hd u = CHR ''-'' then - int (digitsValue ds)
                    else int (digitsValue ds)))"
  unfolding parseInt10_def dropWhile_white_prefix [OF assms] by (simp add: Let_def)

lemma takeWhile_no_digit: "rest = [] \<or> \<not> isDigit (hd rest) \<Longrightarrow> takeWhile isDigit rest = []"
  by (cases rest) auto

lemma parseInt10_prefix:
  assumes ws: "list_all isWhiteSpace ws" and sg: "sg \<in> {[], ''-'', ''+''}"
    and ds: "ds \<noteq> []" "list_all isDigit ds" and rest: "rest = [] \<or> \<not> isDigit (hd rest)"
  shows "parseInt10 (ws @ sg @ ds @ rest) =
           Some (if sg = ''-'' then - int (digitsValue ds) else int (digitsValue ds))"
proof -
  obtain d ds' where dd: "ds = d # ds'" using ds(1) by (cases ds) auto
  have d: "isDigit d" using ds(2) dd by simp
  have dsign: "d \<noteq> CHR ''-''" "d \<noteq> CHR ''+''" using d sign_not_digit by auto
  have nw: "sg @ ds @ rest = [] \<or> \<not> isWhiteSpace (hd (sg @ ds @ rest))"
    using sg dd d by (auto simp: digit_not_white sign_not_white)
  have run: "takeWhile isDigit (ds @ rest) = ds"
    by (rule takeWhile_digit_run [OF ds(2) rest])
  consider "sg = []" | "sg = ''-''" | "sg = ''+''" using sg by auto
  then show ?thesis
  proof cases
    case 1
    have "hd (ds @ rest) = d" by (simp add: dd)
    then show ?thesis
      using parseInt10_skip_white [OF ws nw] run ds(1) dsign by (simp add: 1 Let_def)
  next
    case 2
    then show ?thesis
      using parseInt10_skip_white [OF ws nw] run ds(1) by (simp add: Let_def)
  next
    case 3
    then show ?thesis
      using parseInt10_skip_white [OF ws nw] run ds(1) by (simp add: Let_def)
  qed
qed

lemma parseInt10_NaN:
  assumes ws: "list_all isWhiteSpace ws"
    and u: "(sg = [] \<and> (rest = [] \<or> (\<not> isWhiteSpace (hd rest) \<and> \<not> isDigit (hd rest) \<and>
               hd rest \<noteq> CHR ''-'' \<and> hd rest \<noteq> CHR ''+''))) \<or>
            (sg \<in> {''-'', ''+''} \<and> (rest = [] \<or> \<not> isDigit (hd rest)))"
  shows "parseInt10 (ws @ sg @ rest) = None"
proof -
  have nw: "sg @ rest = [] \<or> \<not> isWhiteSpace (hd (sg @ rest))"
    using u by (auto simp: sign_not_white)
  consider "sg = []" "rest = [] \<or> (\<not> isDigit (hd rest) \<and> hd rest \<noteq> CHR ''-'' \<and> hd rest \<noteq> CHR ''+'')"
    | "sg = ''-''" "rest = [] \<or> \<not> isDigit (hd rest)"
    | "sg = ''+''" "rest = [] \<or> \<not> isDigit (hd rest)"
    using u by auto
  then show ?thesis
  proof cases
    case 1
    then have "takeWhile isDigit rest = []" by (intro takeWhile_no_digit) auto
    then show ?thesis
      using parseInt10_skip_white [OF ws nw] 1 by (auto simp: Let_def)
  next
    case 2
    then have "takeWhile isDigit rest = []" by (intro takeWhile_no_digit)
    then show ?thesis
      using parseInt10_skip_white [OF ws nw] 2 by (simp add: Let_def)
  next
    case 3
    then have "takeWhile isDigit rest = []" by (intro takeWhile_no_digit)
    then show ?thesis
      using parseInt10_skip_white [OF ws nw] 3 by (simp add: Let_def)
  qed
qed

lemma numeric_not_Amount:
  "startsWith (ftype info) ''UInt'' \<or> ftype info = ''Number'' \<Longrightarrow> ftype info \<noteq> ''Amount''"
  by (auto simp: startsWith_def)

lemma convertFieldValue_numeric:
  "startsWith (ftype info) ''UInt'' \<or> ftype info = ''Number'' \<Longrightarrow>
   convertFieldValue v (Some info) =
     (case parseInt10 v of None \<Rightarrow> JStr v | Some num \<Rightarrow> JNum (of_int num))"
  using numeric_not_Amount [of info] by (auto simp add: convertFieldValue_def)

subsection \<open>Amount fields\<close>

text \<open>
  C4. Let the catalog give the field \<open>f\<close> the type \<^verbatim>\<open>Amount\<close>. Then neither builder ever
  holds a number under \<open>f\<close>, whatever the test and whatever \<^verbatim>\<open>JSON.parse\<close> would make of
  the text; a scalar block of \<open>f\<close> is written as the string itself, with no use of
  \<^verbatim>\<open>JSON.parse\<close>; and when that block is the last one of its name and its text is not
  empty (not blank, for the preview builder), the built object has this string under \<open>f\<close>.
\<close>

theorem amount_scalar_stays_string:
  assumes "getFieldInfo defs f = Some info" and "ftype info = ''Amount''"
  shows "(\<forall>n. map_of (buildTransactionObjectFromTest defs jsonParse tx) f \<noteq> Some (JNum n)) \<and>
         (\<forall>n. map_of (buildTransactionObject defs s) f \<noteq> Some (JNum n)) \<and>
         blockFromTest defs jsonParse \<lparr>fieldName = f, bvalue = Scalar v\<rparr> obj =
           (if v = [] then obj else AList.update f (JStr v) obj) \<and>
         (blocks tx = pre @ \<lparr>fieldName = f, bvalue = Scalar v\<rparr> # post \<and> v \<noteq> [] \<and>
          f \<notin> fieldName ` set post \<longrightarrow>
            map_of (buildTransactionObjectFromTest defs jsonParse tx) f = Some (JStr v)) \<and>
         (bs = pre @ \<lparr>fieldName = f, bvalue = Scalar v\<rparr> # post \<and> trim v \<noteq> [] \<and>
          f \<notin> fieldName ` set post \<longrightarrow>
            map_of (buildTransactionObjectOf defs ty bs) f = Some (JStr v))"
proof (intro conjI impI)
  show "\<forall>n. map_of (buildTransactionObjectFromTest defs jsonParse tx) f \<noteq> Some (JNum n)"
    unfolding buildTransactionObjectFromTest_def
    by (rule fold_blockFromTest_not_num [OF assms]) (simp split: option.splits)
  show "\<forall>n. map_of (buildTransactionObject defs s) f \<noteq> Some (JNum n)"
    unfolding buildTransactionObject_def
    by (simp add: buildTransactionObjectOf_not_num [OF assms] split: option.splits)
  show "blockFromTest defs jsonParse \<lparr>fieldName = f, bvalue = Scalar v\<rparr> obj =
          (if v = [] then obj else AList.update f (JStr v) obj)"
    by (rule blockFromTest_Amount [OF assms])
next
  assume h: "blocks tx = pre @ \<lparr>fieldName = f, bvalue = Scalar v\<rparr> # post \<and> v \<noteq> [] \<and>
             f \<notin> fieldName ` set post"
  then show "map_of (buildTransactionObjectFromTest defs jsonParse tx) f = Some (JStr v)"
    by (simp add: buildTransactionObjectFromTest_def fold_blockFromTest_other
          blockFromTest_Amount [OF assms] map_of_update_same)
next
  assume h: "bs = pre @ \<lparr>fieldName = f, bvalue = Scalar v\<rparr> # post \<and> trim v \<noteq> [] \<and>
             f \<notin> fieldName ` set post"
  then show "map_of (buildTransactionObjectOf defs ty bs) f = Some (JStr v)"
    by (simp add: buildTransactionObjectOf_def fold_blockPreview_other
          blockPreview_Amount [OF assms] map_of_update_same)
qed

theorem amount_scalar_stays_string_witness:
  "getFieldInfo sampleFields ''Amount'' = Some \<lparr>ftype = ''Amount''\<rparr> \<and>
   sampleParse ''1000000'' = Some (JNum 1000000) \<and>
   map_of (buildTransactionObjectFromTest sampleFields sampleParse samplePayment) ''Amount'' =
     Some (JStr ''1000000'') \<and>
   map_of (buildTransactionObjectOf sampleFields (Some ''Payment'') (blocks samplePayment)) ''Amount'' =
     Some (JStr ''1000000'')"
proof -
  have a: "getFieldInfo sampleFields ''Amount'' = Some \<lparr>ftype = ''Amount''\<rparr>"
    by (simp add: sample_defs)
  have b: "ftype \<lparr>ftype = ''Amount''\<rparr> = ''Amount''" by simp
  have c: "sampleParse ''1000000'' = Some (JNum 1000000)" by (simp add: sample_defs)
  have d: "trim ''1000000'' \<noteq> []" by (simp add: trim_def isWhiteSpace_def)
  show ?thesis
    using amount_scalar_stays_string [OF a b, where tx = samplePayment and v = "''1000000''"
        and pre = "[\<lparr>fieldName = ''Destination'', bvalue = Scalar ''rLHzPsX6oXkzU9rFkRrJYTetvcqrKKKKKK''\<rparr>]"
        and post = "[]" and bs = "blocks samplePayment" and jsonParse = sampleParse
        and ty = "Some ''Payment''"] a c d
    by (simp add: samplePayment_def createTransaction_def)
qed

subsection \<open>The TransactionType key\<close>

text \<open>
  C5. For a test without a transaction type, \<^verbatim>\<open>buildTransactionObjectFromTest\<close> returns
  an object that has the key \<^verbatim>\<open>TransactionType\<close> with the value \<^verbatim>\<open>null\<close>, where
  \<^verbatim>\<open>buildTransactionObject\<close> leaves the key out.
\<close>

theorem untyped_test_TransactionType_null:
  "buildTransactionObjectFromTest sampleFields sampleParse (createTransaction ''tx-1'' ''Test 1'') =
     [(''TransactionType'', JNull)] \<and>
   buildTransactionObject sampleFields (sampleState [createTransaction ''tx-1'' ''Test 1'']) = []"
  by (simp add: buildTransactionObjectFromTest_def buildTransactionObject_def
        buildTransactionObjectOf_def getCurrentTransaction_def sampleState_def createTransaction_def)

subsection \<open>Blank values\<close>

text \<open>
  C6. \<^verbatim>\<open>buildTransactionObjectFromTest\<close> keeps a field whose value is white space only,
  where \<^verbatim>\<open>buildTransactionObject\<close> leaves it out.
\<close>

theorem blank_value_kept_by_test_builder:
  "buildTransactionObjectFromTest sampleFields sampleParse blankPayment =
     [(''TransactionType'', JStr ''Payment''), (''Destination'', JStr ''  ''), (''Amount'', JStr ''  '')] \<and>
   buildTransactionObject sampleFields (sampleState [blankPayment]) =
     [(''TransactionType'', JStr ''Payment'')]"
  by (simp add: buildTransactionObjectFromTest_def buildTransactionObject_def
        buildTransactionObjectOf_def getCurrentTransaction_def blankPayment_def
        blockFromTest_def blockPreview_def convertFieldValue_def trim_def startsWith_def sample_defs)

subsection \<open>Numeric fields\<close>

text \<open>
  C7, as amended. For a field of a type \<^verbatim>\<open>UInt*\<close> or \<^verbatim>\<open>Number\<close> the fallback is
  \<^verbatim>\<open>parseInt(value, 10)\<close>: after leading white space and one optional sign, the longest
  run of decimal digits (denoting at most \<open>2 ^ 53\<close>) is the integer result, whatever text
  follows the run; text with no digit in that place is left as the original string; and
  this is what the builder stores when \<^verbatim>\<open>JSON.parse\<close> rejects the text. In particular
  \<^verbatim>\<open>"5"\<close> gives 5 and \<^verbatim>\<open>"abc"\<close> gives \<^verbatim>\<open>"abc"\<close>.
\<close>

theorem numeric_coercion_parseInt:
  assumes "startsWith (ftype info) ''UInt'' \<or> ftype info = ''Number''"
  shows "(list_all isWhiteSpace ws \<and> sg \<in> {[], ''-'', ''+''} \<and> ds \<noteq> [] \<and> list_all isDigit ds \<and>
          (rest = [] \<or> \<not> isDigit (hd rest)) \<and> digitsValue ds \<le> 2 ^ 53 \<longrightarrow>
            convertFieldValue (ws @ sg @ ds @ rest) (Some info) =
              JNum (if sg = ''-'' then - of_nat (digitsValue ds) else of_nat (digitsValue ds))) \<and>
         (list_all isWhiteSpace ws \<and>
          ((sg = [] \<and> (rest = [] \<or> (\<not> isWhiteSpace (hd rest) \<and> \<not> isDigit (hd rest) \<and>
               hd rest \<noteq> CHR ''-'' \<and> hd rest \<noteq> CHR ''+''))) \<or>
           (sg \<in> {''-'', ''+''} \<and> (rest = [] \<or> \<not> isDigit (hd rest)))) \<longrightarrow>
            convertFieldValue (ws @ sg @ rest) (Some info) = JStr (ws @ sg @ rest)) \<and>
         (getFieldInfo defs f = Some info \<and> jsonParse v = None \<and> v \<noteq> [] \<longrightarrow>
            blockFromTest defs jsonParse \<lparr>fieldName = f, bvalue = Scalar v\<rparr> obj =
              AList.update f (convertFieldValue v (Some info)) obj) \<and>
         convertFieldValue ''5'' (Some info) = JNum 5 \<and>
         convertFieldValue ''abc'' (Some info) = JStr ''abc''"
proof (intro conjI impI)
  assume h: "list_all isWhiteSpace ws \<and> sg \<in> {[], ''-'', ''+''} \<and> ds \<noteq> [] \<and> list_all isDigit ds \<and>
          (rest = [] \<or> \<not> isDigit (hd rest)) \<and> digitsValue ds \<le> 2 ^ 53"
  then have "parseInt10 (ws @ sg @ ds @ rest) =
           Some (if sg = ''-'' then - int (digitsValue ds) else int (digitsValue ds))"
    by (intro parseInt10_prefix) simp_all
  then show "convertFieldValue (ws @ sg @ ds @ rest) (Some info) =
              JNum (if sg = ''-'' then - of_nat (digitsValue ds) else of_nat (digitsValue ds))"
    by (simp add: convertFieldValue_numeric [OF assms])
next
  assume h: "list_all isWhiteSpace ws \<and>
          ((sg = [] \<and> (rest = [] \<or> (\<not> isWhiteSpace (hd rest) \<and> \<not> isDigit (hd rest) \<and>
               hd rest \<noteq> CHR ''-'' \<and> hd rest \<noteq> CHR ''+''))) \<or>
           (sg \<in> {''-'', ''+''} \<and> (rest = [] \<or> \<not> isDigit (hd rest))))"
  then have "parseInt10 (ws @ sg @ rest) = None"
    by (intro parseInt10_NaN) simp_all
  then show "convertFieldValue (ws @ sg @ rest) (Some info) = JStr (ws @ sg @ rest)"
    by (simp add: convertFieldValue_numeric [OF assms])
next
  assume h: "getFieldInfo defs f = Some info \<and> jsonParse v = None \<and> v \<noteq> []"
  then show "blockFromTest defs jsonParse \<lparr>fieldName = f, bvalue = Scalar v\<rparr> obj =
              AList.update f (convertFieldValue v (Some info)) obj"
    using numeric_not_Amount [OF assms] by (simp add: blockFromTest_def)
next
  show "convertFieldValue ''5'' (Some info) = JNum 5"
    by (simp add: convertFieldValue_numeric [OF assms] parseInt10_def isWhiteSpace_def
          isDigit_def digitsValue_def)
  show "convertFieldValue ''abc'' (Some info) = JStr ''abc''"
    by (simp add: convertFieldValue_numeric [OF assms] parseInt10_def isWhiteSpace_def
          isDigit_def digitsValue_def)
qed

theorem numeric_coercion_parseInt_witness:
  "startsWith ''UInt32'' ''UInt'' \<and>
   convertFieldValue ''  -42px'' (Some \<lparr>ftype = ''UInt32''\<rparr>) = JNum (- 42) \<and>
   convertFieldValue ''+x'' (Some \<lparr>ftype = ''UInt32''\<rparr>) = JStr ''+x'' \<and>
   sampleParse ''5abc'' = None \<and>
   blockFromTest sampleFields sampleParse \<lparr>fieldName = ''SetFlag'', bvalue = Scalar ''5abc''\<rparr> [] =
     [(''SetFlag'', JNum 5)]"
proof -
  have a: "startsWith (ftype \<lparr>ftype = ''UInt32''\<rparr>) ''UInt'' \<or> ftype \<lparr>ftype = ''UInt32''\<rparr> = ''Number''"
    by (simp add: startsWith_def)
  have b: "getFieldInfo sampleFields ''SetFlag'' = Some \<lparr>ftype = ''UInt32''\<rparr>"
    by (simp add: sample_defs)
  have c: "sampleParse ''5abc'' = None" by (simp add: sample_defs)
  have d: "digitsValue ''42'' = 42" "digitsValue ''5'' = 5" by (simp_all add: digitsValue_def)
  have e: "convertFieldValue ''5abc'' (Some \<lparr>ftype = ''UInt32''\<rparr>) = JNum 5"
    using numeric_coercion_parseInt [OF a, where ws = "[]" and sg = "[]" and ds = "''5''"
        and rest = "''abc''"]
    by (simp add: isDigit_def d)
  show ?thesis
    using numeric_coercion_parseInt [OF a, where ws = "''  ''" and sg = "''-''" and ds = "''42''"
        and rest = "''px''"]
      numeric_coercion_parseInt [OF a, where ws = "[]" and sg = "''+''" and rest = "''x''"
        and defs = sampleFields and f = "''SetFlag''" and jsonParse = sampleParse
        and v = "''5abc''" and obj = "[]"]
      b c e
    by (simp add: isDigit_def isWhiteSpace_def d startsWith_def)
qed

text \<open>
  The claim as stated fails: \<^verbatim>\<open>"5abc"\<close> is no base-10 integer and becomes 5, and
  \<^verbatim>\<open>"0x1F"\<close> becomes 0.
\<close>

theorem numeric_coercion_counterexample:
  "convertFieldValue ''5abc'' (Some \<lparr>ftype = ''UInt32''\<rparr>) = JNum 5 \<and>
   convertFieldValue ''5abc'' (Some \<lparr>ftype = ''UInt32''\<rparr>) \<noteq> JStr ''5abc'' \<and>
   convertFieldValue ''0x1F'' (Some \<lparr>ftype = ''UInt32''\<rparr>) = JNum 0"
  by (simp add: convertFieldValue_def startsWith_def parseInt10_def isWhiteSpace_def isDigit_def
        digitsValue_def)

subsection \<open>Adding a field twice\<close>

lemma find_Some_split:
  "find p xs = Some x \<Longrightarrow> \<exists>pre post. xs = pre @ x # post \<and> (\<forall>y \<in> set pre. \<not> p y) \<and> p x"
proof (induction xs)
  case Nil
  then show ?case by simp
next
  case (Cons a xs)
  show ?case
  proof (cases "p a")
    case True
    with Cons.prems have "a = x" by simp
    with True show ?thesis by (intro exI [of _ "[]"] exI [of _ xs]) auto
  next
    case False
    with Cons.prems have "find p xs = Some x" by simp
    from Cons.IH [OF this] obtain pre post where
      "xs = pre @ x # post" "\<forall>y \<in> set pre. \<not> p y" "p x" by blast
    with False show ?thesis by (intro exI [of _ "a # pre"] exI [of _ post]) auto
  qed
qed

lemma find_None_iff_set: "find p xs = None \<longleftrightarrow> (\<forall>x \<in> set xs. \<not> p x)"
  by (induction xs) auto

lemma modifyFirst_find:
  "find p xs = Some x \<Longrightarrow> set (modifyFirst p f xs) \<subseteq> insert (f x) (set xs)"
  by (induction xs) (auto split: if_splits)

text \<open>
  What \<^verbatim>\<open>addFieldBlock\<close> does by itself. When the current test already has a block of the
  name, it changes nothing but the validation messages, to which it appends the warning:
  the blocks of every test, with their values, are as before. And if the field names of
  every test are distinct before \<^verbatim>\<open>addFieldBlock\<close>, they are distinct after it, whatever
  name is added.
\<close>

theorem addFieldBlock_rejects_duplicate:
  "(getCurrentTransaction s = Some tx \<and> fname \<in> fieldName ` set (blocks tx) \<longrightarrow>
      addFieldBlock fname bodyFound s =
        s\<lparr>validationMessages := validationMessages s @ [(alreadyAdded fname, ''warning'')]\<rparr> \<and>
      transactions (addFieldBlock fname bodyFound s) = transactions s) \<and>
   ((\<forall>t \<in> set (transactions s). distinct (map fieldName (blocks t))) \<longrightarrow>
      (\<forall>t \<in> set (transactions (addFieldBlock fname bodyFound s)).
         distinct (map fieldName (blocks t))))"
proof (intro conjI impI)
  assume h: "getCurrentTransaction s = Some tx \<and> fname \<in> fieldName ` set (blocks tx)"
  then have "find (\<lambda>b. fieldName b = fname) (blocks tx) \<noteq> None"
    by (auto simp: find_None_iff_set)
  then obtain b where b: "find (\<lambda>b. fieldName b = fname) (blocks tx) = Some b" by auto
  with h show r: "addFieldBlock fname bodyFound s =
        s\<lparr>validationMessages := validationMessages s @ [(alreadyAdded fname, ''warning'')]\<rparr>"
    by (simp add: addFieldBlock_def)
  show "transactions (addFieldBlock fname bodyFound s) = transactions s"
    by (simp add: r)
next
  assume inv: "\<forall>t \<in> set (transactions s). distinct (map fieldName (blocks t))"
  show "\<forall>t \<in> set (transactions (addFieldBlock fname bodyFound s)).
         distinct (map fieldName (blocks t))"
  proof (cases "getCurrentTransaction s")
    case None
    then show ?thesis using inv by (simp add: addFieldBlock_def)
  next
    case (Some tx)
    then have f: "find (\<lambda>t. id_tx t = id_tx tx) (transactions s) = Some tx"
      by (auto simp: getCurrentTransaction_def split: option.splits if_splits
            dest: find_Some_split)
    show ?thesis
    proof (cases "find (\<lambda>b. fieldName b = fname) (blocks tx)")
      case (Some b)
      with \<open>getCurrentTransaction s = Some tx\<close> show ?thesis
        using inv by (simp add: addFieldBlock_def)
    next
      case None
      then have new: "fname \<notin> fieldName ` set (blocks tx)"
        by (auto simp: find_None_iff_set)
      have "tx \<in> set (transactions s)"
        using find_Some_split [OF f] by auto
      with inv have "distinct (map fieldName (blocks tx))" by blast
      with new have d: "distinct (map fieldName
          (blocks (tx\<lparr>blocks := blocks tx @ [\<lparr>fieldName = fname, bvalue = Scalar []\<rparr>]\<rparr>)))"
        by auto
      show ?thesis
      proof (cases bodyFound)
        case False
        with None \<open>getCurrentTransaction s = Some tx\<close> show ?thesis
          using inv by (simp add: addFieldBlock_def)
      next
        case True
        with None \<open>getCurrentTransaction s = Some tx\<close> have
          "set (transactions (addFieldBlock fname bodyFound s)) \<subseteq>
             insert (tx\<lparr>blocks := blocks tx @ [\<lparr>fieldName = fname, bvalue = Scalar []\<rparr>]\<rparr>)
               (set (transactions s))"
          using modifyFirst_find [OF f] by (simp add: addFieldBlock_def)
        with d inv show ?thesis by blast
      qed
    qed
  qed
qed

theorem addFieldBlock_rejects_duplicate_witness:
  "getCurrentTransaction (sampleState [samplePayment]) = Some samplePayment \<and>
   ''Amount'' \<in> fieldName ` set (blocks samplePayment) \<and>
   addFieldBlock ''Amount'' True (sampleState [samplePayment]) =
     (sampleState [samplePayment])\<lparr>validationMessages := [(alreadyAdded ''Amount'', ''warning'')]\<rparr> \<and>
   transactions (addFieldBlock ''Amount'' True (sampleState [samplePayment])) = [samplePayment] \<and>
   list_all (\<lambda>t. distinct (map fieldName (blocks t))) (transactions (sampleState [samplePayment])) \<and>
   list_all (\<lambda>t. distinct (map fieldName (blocks t)))
     (transactions (addFieldBlock ''Fee'' True (sampleState [samplePayment])))"
proof -
  have a: "getCurrentTransaction (sampleState [samplePayment]) = Some samplePayment"
    by (simp add: getCurrentTransaction_def sampleState_def samplePayment_def createTransaction_def)
  have b: "''Amount'' \<in> fieldName ` set (blocks samplePayment)"
    by (simp add: samplePayment_def)
  have c: "\<forall>t \<in> set (transactions (sampleState [samplePayment])). distinct (map fieldName (blocks t))"
    by (simp add: sampleState_def samplePayment_def)
  show ?thesis
    using addFieldBlock_rejects_duplicate [where s = "sampleState [samplePayment]"
        and tx = samplePayment and fname = "''Amount''" and bodyFound = True]
      addFieldBlock_rejects_duplicate [where s = "sampleState [samplePayment]"
        and fname = "''Fee''" and bodyFound = True]
      a b c
    by (simp add: sampleState_def list_all_iff)
qed

lemma validateTransaction_messages:
  "set (validationMessages (validateTransaction tr s)) \<subseteq>
     {(''Transaction Type is required'', ''error''),
      (''Account field is recommended'', ''warning''),
      (''Fee field is recommended'', ''warning''),
      (''Transaction structure looks good!'', ''success'')}"
  by (simp add: validateTransaction_def clearValidationMessages_def showValidationMessage_def Let_def)

lemma alreadyAdded_other:
  "alreadyAdded fname \<noteq> ''Account field is recommended''"
  "alreadyAdded fname \<noteq> ''Fee field is recommended''"
  by (simp_all add: alreadyAdded_def)

lemma validateTransaction_forgets:
  "validationMessages (validateTransaction tr (s\<lparr>validationMessages := ms\<rparr>)) =
   validationMessages (validateTransaction tr s)"
  by (simp add: validateTransaction_def clearValidationMessages_def showValidationMessage_def Let_def)

lemma buildTransactionObject_messages:
  "buildTransactionObject defs (s\<lparr>validationMessages := ms\<rparr>) = buildTransactionObject defs s"
  by (simp add: buildTransactionObject_def getCurrentTransaction_def split: option.splits)

text \<open>
  C8. The warning does not reach the user. \<^verbatim>\<open>addFieldBlock\<close> appends it for a field the
  current test has already, and \<^verbatim>\<open>handleDrop\<close>, which called it, goes on to
  \<^verbatim>\<open>updateJSONOutput\<close>, whose \<^verbatim>\<open>validateTransaction\<close> starts by emptying the messages: when
  the handler returns, the test is as it was and the messages are those of the validation
  alone. Whatever the state, no warning of a field already added is among the messages
  after \<^verbatim>\<open>updateJSONOutput\<close>, and these do not depend on what was shown before.
\<close>

theorem handleDrop_wipes_duplicate_warning:
  "validationMessages (addFieldBlock ''Amount'' True draggingAmount) =
     [(alreadyAdded ''Amount'', ''warning'')] \<and>
   handleDrop sampleFields True draggingAmount =
     (sampleState [samplePayment])
       \<lparr>validationMessages :=
          [(''Account field is recommended'', ''warning''),
           (''Fee field is recommended'', ''warning'')]\<rparr> \<and>
   (alreadyAdded fname, ''warning'') \<notin> set (validationMessages (updateJSONOutput defs s)) \<and>
   validationMessages (updateJSONOutput defs (s\<lparr>validationMessages := ms\<rparr>)) =
     validationMessages (updateJSONOutput defs s)"
proof (intro conjI)
  have cur: "getCurrentTransaction draggingAmount = Some samplePayment"
    by (simp add: getCurrentTransaction_def draggingAmount_def sampleState_def samplePayment_def
          createTransaction_def)
  have ex: "find (\<lambda>b. fieldName b = ''Amount'') (blocks samplePayment) =
              Some \<lparr>fieldName = ''Amount'', bvalue = Scalar ''1000000''\<rparr>"
    by (simp add: samplePayment_def)
  have add: "addFieldBlock ''Amount'' True draggingAmount =
               draggingAmount\<lparr>validationMessages := [(alreadyAdded ''Amount'', ''warning'')]\<rparr>"
    by (simp add: addFieldBlock_def cur ex) (simp add: draggingAmount_def sampleState_def)
  show "validationMessages (addFieldBlock ''Amount'' True draggingAmount) =
     [(alreadyAdded ''Amount'', ''warning'')]"
    by (simp add: add)
  have obj: "buildTransactionObject sampleFields (sampleState [samplePayment]) =
     [(''TransactionType'', JStr ''Payment''),
      (''Destination'', JStr ''rLHzPsX6oXkzU9rFkRrJYTetvcqrKKKKKK''),
      (''Amount'', JStr ''1000000'')]"
    by code_simp
  have st: "draggingAmount\<lparr>validationMessages := [(alreadyAdded ''Amount'', ''warning'')],
                           draggedData := None\<rparr> =
            (sampleState [samplePayment])\<lparr>validationMessages := [(alreadyAdded ''Amount'', ''warning'')]\<rparr>"
    by (simp add: draggingAmount_def sampleState_def)
  have dd: "draggedData draggingAmount =
      Some \<lparr>dragFieldName = ''Amount'', dragBlockType = ''amount-field'', dragTransactionType = None\<rparr>"
    by (simp add: draggingAmount_def)
  show "handleDrop sampleFields True draggingAmount =
     (sampleState [samplePayment])
       \<lparr>validationMessages :=
          [(''Account field is recommended'', ''warning''),
           (''Fee field is recommended'', ''warning'')]\<rparr>"
    by (simp add: handleDrop_def dd add st updateJSONOutput_def buildTransactionObject_messages obj
          validateTransaction_def clearValidationMessages_def showValidationMessage_def)
  show "(alreadyAdded fname, ''warning'') \<notin> set (validationMessages (updateJSONOutput defs s))"
    using validateTransaction_messages [of "buildTransactionObject defs s" s]
      alreadyAdded_other [of fname]
    by (auto simp add: updateJSONOutput_def)
  show "validationMessages (updateJSONOutput defs (s\<lparr>validationMessages := ms\<rparr>)) =
     validationMessages (updateJSONOutput defs s)"
    by (simp add: updateJSONOutput_def buildTransactionObject_messages validateTransaction_forgets)
qed

subsection \<open>Helper lemmas for the runner\<close>

lemma modifyFirst_compose:
  "(\<And>x. p x \<Longrightarrow> p (f x)) \<Longrightarrow>
   modifyFirst p g (modifyFirst p f xs) = modifyFirst p (\<lambda>x. g (f x)) xs"
  by (induction xs) auto

lemma modifyFirst_cong_on:
  "(\<And>x. x \<in> set xs \<Longrightarrow> p x \<Longrightarrow> f x = g x) \<Longrightarrow> modifyFirst p f xs = modifyFirst p g xs"
  by (induction xs) auto

lemma modifyFirst_map_id:
  "(\<And>x. h (f x) = h x) \<Longrightarrow> map h (modifyFirst p f xs) = map h xs"
  by (induction xs) auto

lemma setStatus_id [simp]: "id_tx (setStatus st r now t) = id_tx t"
  by (simp add: setStatus_def Let_def split: option.splits)

lemma setStatus_status [simp]: "status (setStatus st r now t) = st"
  by (simp add: setStatus_def Let_def split: option.splits)

lemma setStatus_final:
  "st \<noteq> ''running'' \<Longrightarrow> setStatus st (Some r) now t = t\<lparr>status := st, actualResult := Some r\<rparr>"
  by (simp add: setStatus_def)

lemma setStatus_failed:
  "setStatus ''failed'' (Some r) now = (\<lambda>t. t\<lparr>status := ''failed'', actualResult := Some r\<rparr>)"
  by (rule ext) (simp add: setStatus_def)

lemma setStatus_running:
  "setStatus ''running'' None now t = t\<lparr>status := ''running'', submittedAt := Some now\<rparr>"
  by (simp add: setStatus_def)

lemma recordError_running:
  "recordError env i tx message (updateTransactionStatus i ''running'' None (clockRunning env) txs) =
     modifyFirst (\<lambda>t. id_tx t = i)
       (\<lambda>t. t\<lparr>status := (if resultOfError message = expectedResult tx
                           then ''passed'' else ''failed''),
               actualResult := Some (resultOfError message),
               submittedAt := Some (clockRunning env)\<rparr>) txs"
  by (auto simp add: recordError_def updateTransactionStatus_def modifyFirst_compose Let_def
        setStatus_final setStatus_running intro!: modifyFirst_cong_on)

lemma recordSuccess_running:
  "recordSuccess env i tx (result, h) (updateTransactionStatus i ''running'' None (clockRunning env) txs) =
     modifyFirst (\<lambda>t. id_tx t = i)
       (\<lambda>t. t\<lparr>status := (if result = expectedResult tx then ''passed'' else ''failed''),
               actualResult := Some result, hash := Some h,
               submittedAt := Some (clockDone env)\<rparr>) txs"
  by (auto simp add: recordSuccess_def updateTransactionStatus_def modifyFirst_compose
        setStatus_final setStatus_running intro!: modifyFirst_cong_on)


lemma find_split_Some:
  "\<forall>y \<in> set pre. \<not> p y \<Longrightarrow> p x \<Longrightarrow> find p (pre @ x # post) = Some x"
  by (induction pre) auto

lemma runSingleTestBody_no_type:
  assumes "find (\<lambda>t. id_tx t = i) (transactions s) = Some tx" and "type_tx tx = None"
  shows "runSingleTestBody defs jsonParse env i s =
           s\<lparr>transactions :=
               modifyFirst (\<lambda>t. id_tx t = i)
                 (\<lambda>t. t\<lparr>status := ''failed'', actualResult := Some ''No transaction type''\<rparr>)
                 (transactions s)\<rparr>"
  using assms
  by (simp add: runSingleTestBody_def updateTransactionStatus_def setStatus_failed)

lemma runSingleTestBody_thrown:
  assumes "find (\<lambda>t. id_tx t = i) (transactions s) = Some tx"
    and "type_tx tx = Some ty" and "ty \<noteq> []"
    and "find (\<lambda>acc. seed acc \<noteq> None \<and> seed acc \<noteq> Some []) (accounts s) = Some signingAccount"
    and "clientSession env (map_of NETWORK_ENDPOINTS (currentNetwork s))
           (buildTransactionObjectFromTest defs jsonParse tx) = (calls, Inl message)"
  shows "runSingleTestBody defs jsonParse env i s =
           s\<lparr>transactions :=
               modifyFirst (\<lambda>t. id_tx t = i)
                 (\<lambda>t. t\<lparr>status := (if resultOfError message = expectedResult tx
                                     then ''passed'' else ''failed''),
                         actualResult := Some (resultOfError message),
                         submittedAt := Some (clockRunning env)\<rparr>)
                 (transactions s),
             trace := trace s @ calls\<rparr>"
  using assms by (simp add: runSingleTestBody_def recordError_running)

lemma runSingleTestBody_answered:
  assumes "find (\<lambda>t. id_tx t = i) (transactions s) = Some tx"
    and "type_tx tx = Some ty" and "ty \<noteq> []"
    and "find (\<lambda>acc. seed acc \<noteq> None \<and> seed acc \<noteq> Some []) (accounts s) = Some signingAccount"
    and "clientSession env (map_of NETWORK_ENDPOINTS (currentNetwork s))
           (buildTransactionObjectFromTest defs jsonParse tx) = (calls, Inr (result, h))"
  shows "runSingleTestBody defs jsonParse env i s =
           s\<lparr>transactions :=
               modifyFirst (\<lambda>t. id_tx t = i)
                 (\<lambda>t. t\<lparr>status := (if result = expectedResult tx then ''passed'' else ''failed''),
                         actualResult := Some result, hash := Some h,
                         submittedAt := Some (clockDone env)\<rparr>)
                 (transactions s),
             trace := trace s @ calls\<rparr>"
  using assms by (simp add: runSingleTestBody_def recordSuccess_running)

lemma runSingleTestBody_no_account:
  assumes "find (\<lambda>t. id_tx t = i) (transactions s) = Some tx"
    and "type_tx tx = Some ty" and "ty \<noteq> []"
    and "find (\<lambda>acc. seed acc \<noteq> None \<and> seed acc \<noteq> Some []) (accounts s) = None"
  shows "runSingleTestBody defs jsonParse env i s =
           s\<lparr>transactions :=
               modifyFirst (\<lambda>t. id_tx t = i)
                 (\<lambda>t. t\<lparr>status := ''failed'', actualResult := Some ''No signing account''\<rparr>)
                 (transactions s)\<rparr>"
  using assms
  by (simp add: runSingleTestBody_def updateTransactionStatus_def setStatus_failed)

lemma runSingleTestBody_empty_type:
  assumes "find (\<lambda>t. id_tx t = i) (transactions s) = Some tx" and "type_tx tx = Some []"
  shows "runSingleTestBody defs jsonParse env i s =
           s\<lparr>transactions :=
               modifyFirst (\<lambda>t. id_tx t = i)
                 (\<lambda>t. t\<lparr>status := ''failed'', actualResult := Some ''No transaction type''\<rparr>)
                 (transactions s)\<rparr>"
  using assms
  by (simp add: runSingleTestBody_def updateTransactionStatus_def setStatus_failed)

lemma submitCleaned_no_boundary: "filter isBoundary (fst (submitCleaned env obj)) = []"
  by (simp add: submitCleaned_def Let_def split: sum.splits option.splits)

lemma clientSession_no_boundary: "filter isBoundary (fst (clientSession env ep obj)) = []"
proof -
  have a: "\<And>ob. filter isBoundary (fst (submitCleaned env ob)) = []"
    by (rule submitCleaned_no_boundary)
  show ?thesis
    unfolding clientSession_def Let_def
    by (simp split: sum.splits option.splits prod.splits add: split_beta a)
qed

lemma runSingleTestBody_trace:
  "\<exists>calls. trace (runSingleTestBody defs jsonParse env i s) = trace s @ calls \<and>
           filter isBoundary calls = []"
proof (cases "find (\<lambda>t. id_tx t = i) (transactions s)")
  case None
  then show ?thesis by (simp add: runSingleTestBody_def)
next
  case (Some tx)
  show ?thesis
  proof (cases "type_tx tx = None \<or> type_tx tx = Some []")
    case True
    with Some show ?thesis by (auto simp add: runSingleTestBody_def)
  next
    case False
    show ?thesis
    proof (cases "find (\<lambda>acc. seed acc \<noteq> None \<and> seed acc \<noteq> Some []) (accounts s)")
      case None
      with Some False show ?thesis by (auto simp add: runSingleTestBody_def)
    next
      case acc: (Some signingAccount)
      obtain calls outcome where c:
        "clientSession env (map_of NETWORK_ENDPOINTS (currentNetwork s))
           (buildTransactionObjectFromTest defs jsonParse tx) = (calls, outcome)"
        by (cases "clientSession env (map_of NETWORK_ENDPOINTS (currentNetwork s))
           (buildTransactionObjectFromTest defs jsonParse tx)") auto
      have "filter isBoundary calls = []"
        using clientSession_no_boundary [of env "map_of NETWORK_ENDPOINTS (currentNetwork s)"
            "buildTransactionObjectFromTest defs jsonParse tx"] c by simp
      moreover have "trace (runSingleTestBody defs jsonParse env i s) = trace s @ calls"
        using Some False acc c by (auto simp add: runSingleTestBody_def Let_def)
      ultimately show ?thesis by blast
    qed
  qed
qed

lemma runSingleTest_boundary:
  "filter isBoundary (trace (runSingleTest defs jsonParse env i s)) =
     filter isBoundary (trace s) @ [Called i, Returned i]"
proof -
  obtain calls where
    "trace (runSingleTestBody defs jsonParse env i (s\<lparr>trace := trace s @ [Called i]\<rparr>)) =
       trace (s\<lparr>trace := trace s @ [Called i]\<rparr>) @ calls" "filter isBoundary calls = []"
    using runSingleTestBody_trace by blast
  then show ?thesis by (simp add: runSingleTest_def Let_def)
qed

lemma runSingleTest_shape:
  assumes "find (\<lambda>t. id_tx t = i) (transactions s) = Some tx"
  shows "\<exists>F. transactions (runSingleTest defs jsonParse env i s) =
               modifyFirst (\<lambda>t. id_tx t = i) F (transactions s) \<and>
             (\<forall>t. id_tx (F t) = id_tx t) \<and>
             (\<forall>t. status (F t) = ''passed'' \<or> status (F t) = ''failed'')"
proof -
  let ?s = "s\<lparr>trace := trace s @ [Called i]\<rparr>"
  have f: "find (\<lambda>t. id_tx t = i) (transactions ?s) = Some tx" using assms by simp
  have tr: "transactions (runSingleTest defs jsonParse env i s) =
            transactions (runSingleTestBody defs jsonParse env i ?s)"
    by (simp add: runSingleTest_def Let_def)
  have ex: "\<And>F. transactions (runSingleTestBody defs jsonParse env i ?s) =
               modifyFirst (\<lambda>t. id_tx t = i) F (transactions s) \<Longrightarrow>
             (\<forall>t. id_tx (F t) = id_tx t) \<Longrightarrow>
             (\<forall>t. status (F t) = ''passed'' \<or> status (F t) = ''failed'') \<Longrightarrow> ?thesis"
    using tr by metis
  show ?thesis
  proof (cases "type_tx tx")
    case None
    show ?thesis
      by (rule ex, simp add: runSingleTestBody_no_type [OF f None]) simp_all
  next
    case ty: (Some ty)
    show ?thesis
    proof (cases "ty = []")
      case True
      with ty have e: "type_tx tx = Some []" by simp
      show ?thesis
        by (rule ex, simp add: runSingleTestBody_empty_type [OF f e]) simp_all
    next
      case ne: False
      show ?thesis
      proof (cases "find (\<lambda>acc. seed acc \<noteq> None \<and> seed acc \<noteq> Some []) (accounts ?s)")
        case None
        show ?thesis
          by (rule ex, simp add: runSingleTestBody_no_account [OF f ty ne None]) simp_all
      next
        case acc: (Some signingAccount)
        obtain calls outcome where c:
          "clientSession env (map_of NETWORK_ENDPOINTS (currentNetwork ?s))
             (buildTransactionObjectFromTest defs jsonParse tx) = (calls, outcome)"
          by (cases "clientSession env (map_of NETWORK_ENDPOINTS (currentNetwork ?s))
             (buildTransactionObjectFromTest defs jsonParse tx)") auto
        show ?thesis
        proof (cases outcome)
          case (Inl message)
          show ?thesis
            by (rule ex, simp add: runSingleTestBody_thrown [OF f ty ne acc c [unfolded Inl]])
               simp_all
        next
          case (Inr res)
          obtain result h where r: "res = (result, h)" by (cases res) auto
          show ?thesis
            by (rule ex, simp add: runSingleTestBody_answered [OF f ty ne acc c [unfolded Inr r]])
               simp_all
        qed
      qed
    qed
  qed
qed

lemma find_in_set: "i \<in> h ` set xs \<Longrightarrow> \<exists>x. find (\<lambda>t. h t = i) xs = Some x"
  by (cases "find (\<lambda>t. h t = i) xs") (auto simp: find_None_iff_set)

lemma modifyFirst_distinct_set:
  "distinct (map h xs) \<Longrightarrow> (\<And>x. h (f x) = h x) \<Longrightarrow> y \<in> set (modifyFirst (\<lambda>x. h x = i) f xs) \<Longrightarrow>
   (h y = i \<and> (\<exists>x. y = f x)) \<or> (h y \<noteq> i \<and> y \<in> set xs)"
proof (induction xs)
  case Nil
  then show ?case by simp
next
  case (Cons x xs)
  show ?case
  proof (cases "h x = i")
    case True
    with Cons.prems show ?thesis by (auto simp: image_iff)
  next
    case False
    with Cons show ?thesis by auto
  qed
qed

lemma runSingleTest_ids:
  "map id_tx (transactions (runSingleTest defs jsonParse env i s)) = map id_tx (transactions s)"
proof (cases "find (\<lambda>t. id_tx t = i) (transactions s)")
  case None
  then show ?thesis by (simp add: runSingleTest_def runSingleTestBody_def Let_def)
next
  case (Some tx)
  from runSingleTest_shape [OF Some] obtain F where
    "transactions (runSingleTest defs jsonParse env i s) =
       modifyFirst (\<lambda>t. id_tx t = i) F (transactions s)" "\<forall>t. id_tx (F t) = id_tx t"
    by blast
  then show ?thesis by (simp add: modifyFirst_map_id)
qed

lemma runSingleTest_finished:
  assumes d: "distinct (map id_tx (transactions s))" and i: "i \<in> id_tx ` set (transactions s)"
    and inv: "\<forall>t \<in> set (transactions s). id_tx t \<in> D \<longrightarrow> finished t"
  shows "\<forall>t \<in> set (transactions (runSingleTest defs jsonParse env i s)).
           id_tx t \<in> insert i D \<longrightarrow> finished t"
proof -
  obtain tx where f: "find (\<lambda>t. id_tx t = i) (transactions s) = Some tx"
    using find_in_set [OF i] by blast
  from runSingleTest_shape [OF f] obtain F where F:
    "transactions (runSingleTest defs jsonParse env i s) =
       modifyFirst (\<lambda>t. id_tx t = i) F (transactions s)" "\<And>t. id_tx (F t) = id_tx t"
    "\<And>t. finished (F t)"
    unfolding finished_def by blast
  show ?thesis
  proof (intro ballI impI)
    fix t assume t: "t \<in> set (transactions (runSingleTest defs jsonParse env i s))"
      and m: "id_tx t \<in> insert i D"
    from modifyFirst_distinct_set [OF d F(2) t [unfolded F(1)]]
    show "finished t" using F(3) inv m by auto
  qed
qed

lemma runEach_ids:
  "map id_tx (transactions (runEach defs jsonParse envs k ids s)) = map id_tx (transactions s)"
  by (induction ids arbitrary: k s) (simp_all add: runSingleTest_ids)

lemma runEach_boundary:
  "filter isBoundary (trace (runEach defs jsonParse envs k ids s)) =
     filter isBoundary (trace s) @ concat (map (\<lambda>i. [Called i, Returned i]) ids)"
  by (induction ids arbitrary: k s) (simp_all add: runSingleTest_boundary)

lemma runEach_finished:
  "distinct (map id_tx (transactions s)) \<Longrightarrow> set ids \<subseteq> id_tx ` set (transactions s) \<Longrightarrow>
   \<forall>t \<in> set (transactions s). id_tx t \<in> D \<longrightarrow> finished t \<Longrightarrow>
   \<forall>t \<in> set (transactions (runEach defs jsonParse envs k ids s)). id_tx t \<in> D \<union> set ids \<longrightarrow> finished t"
proof (induction ids arbitrary: k s D)
  case Nil
  then show ?case by simp
next
  case (Cons i ids)
  let ?s = "runSingleTest defs jsonParse (envs k) i s"
  have same: "map id_tx (transactions ?s) = map id_tx (transactions s)"
    by (rule runSingleTest_ids)
  have d: "distinct (map id_tx (transactions ?s))" using Cons.prems(1) same by simp
  have sub: "set ids \<subseteq> id_tx ` set (transactions ?s)"
    using Cons.prems(2) same by (metis list.set_map set_subset_Cons subset_trans)
  have i: "i \<in> id_tx ` set (transactions s)" using Cons.prems(2) by simp
  have inv: "\<forall>t \<in> set (transactions ?s). id_tx t \<in> insert i D \<longrightarrow> finished t"
    by (rule runSingleTest_finished [OF Cons.prems(1) i Cons.prems(3)])
  from Cons.IH [OF d sub inv, of "Suc k"] show ?case by simp
qed

lemma count_partition:
  "\<forall>x \<in> set xs. (p x \<or> q x) \<and> \<not> (p x \<and> q x) \<Longrightarrow>
   length (filter p xs) + length (filter q xs) = length xs"
  by (induction xs) auto

lemma resetTest_idem [simp]: "resetTest (resetTest t) = resetTest t"
  by (simp add: resetTest_def)

lemma resetTest_id_tx [simp]: "id_tx (resetTest t) = id_tx t"
  by (simp add: resetTest_def)

lemma resetTest_id: "map id_tx (map resetTest txs) = map id_tx txs"
  by simp




subsection \<open>A test without a transaction type\<close>

text \<open>
  C2. Let \<open>tx\<close> be the test that \<^verbatim>\<open>runSingleTest(i)\<close> finds (the first one with the id)
  and let its type be \<^verbatim>\<open>null\<close>. Then the run changes the state in two places only: the
  test gets the status \<^verbatim>\<open>failed\<close> and the \<^verbatim>\<open>actualResult\<close> \<^verbatim>\<open>No transaction type\<close>, and the
  trace gets the call and the return of the run, with no call of the network client
  between them (no connect, no ledger request, no submission).
\<close>

theorem runSingleTest_no_type:
  assumes "transactions s = pre @ tx # post" and "i \<notin> id_tx ` set pre" and "id_tx tx = i"
    and "type_tx tx = None"
  shows "runSingleTest defs jsonParse env i s =
           s\<lparr>transactions :=
               pre @ tx\<lparr>status := ''failed'', actualResult := Some ''No transaction type''\<rparr> # post,
             trace := trace s @ [Called i, Returned i]\<rparr>"
proof -
  have np: "\<forall>y \<in> set pre. \<not> id_tx y = i" using assms(2) by blast
  let ?s = "s\<lparr>trace := trace s @ [Called i]\<rparr>"
  have f: "find (\<lambda>t. id_tx t = i) (transactions ?s) = Some tx"
    using find_split_Some [OF np assms(3)] assms(1) by simp
  have "runSingleTestBody defs jsonParse env i ?s =
          ?s\<lparr>transactions :=
               pre @ tx\<lparr>status := ''failed'', actualResult := Some ''No transaction type''\<rparr> # post\<rparr>"
    using runSingleTestBody_no_type [OF f assms(4)] modifyFirst_split [OF np assms(3)] assms(1)
    by simp
  then show ?thesis by (simp add: runSingleTest_def)
qed

theorem runSingleTest_no_type_witness:
  "transactions (sampleState [createTransaction ''tx-1'' ''Test 1'']) =
     [] @ createTransaction ''tx-1'' ''Test 1'' # [] \<and>
   ''tx-1'' \<notin> id_tx ` set [] \<and>
   id_tx (createTransaction ''tx-1'' ''Test 1'') = ''tx-1'' \<and>
   type_tx (createTransaction ''tx-1'' ''Test 1'') = None \<and>
   runSingleTest sampleFields sampleParse (answeredEnv ''tesSUCCESS'' ''AB12'') ''tx-1''
       (sampleState [createTransaction ''tx-1'' ''Test 1'']) =
     (sampleState [createTransaction ''tx-1'' ''Test 1''])
       \<lparr>transactions :=
          [(createTransaction ''tx-1'' ''Test 1'')
             \<lparr>status := ''failed'', actualResult := Some ''No transaction type''\<rparr>],
        trace := [Called ''tx-1'', Returned ''tx-1'']\<rparr>"
proof -
  have a: "transactions (sampleState [createTransaction ''tx-1'' ''Test 1'']) =
     [] @ createTransaction ''tx-1'' ''Test 1'' # []"
    by (simp add: sampleState_def)
  have b: "''tx-1'' \<notin> id_tx ` set []" by simp
  have c: "id_tx (createTransaction ''tx-1'' ''Test 1'') = ''tx-1''"
    by (simp add: createTransaction_def)
  have d: "type_tx (createTransaction ''tx-1'' ''Test 1'') = None"
    by (simp add: createTransaction_def)
  have e: "trace (sampleState [createTransaction ''tx-1'' ''Test 1'']) = []"
    by (simp add: sampleState_def)
  show ?thesis
    using runSingleTest_no_type [OF a b c d, where defs = sampleFields and jsonParse = sampleParse
        and env = "answeredEnv ''tesSUCCESS'' ''AB12''"] a c d e
    by simp
qed

subsection \<open>A submission that throws\<close>




subsection \<open>The trace of a run\<close>

lemma build_core:
  "core a = core b \<Longrightarrow>
   buildTransactionObjectFromTest defs jsonParse a = buildTransactionObjectFromTest defs jsonParse b"
  by (simp add: core_def buildTransactionObjectFromTest_def)

lemma find_core:
  "map core xs = map core ys \<Longrightarrow>
   (case find (\<lambda>t. id_tx t = i) xs of None \<Rightarrow> find (\<lambda>t. id_tx t = i) ys = None
    | Some a \<Rightarrow> (\<exists>b. find (\<lambda>t. id_tx t = i) ys = Some b \<and> core a = core b))"
proof (induction xs arbitrary: ys)
  case Nil
  then show ?case by simp
next
  case (Cons x xs)
  then obtain y ys' where ys: "ys = y # ys'" "core x = core y" "map core xs = map core ys'"
    by (cases ys) auto
  from ys(2) have "id_tx x = id_tx y" by (simp add: core_def)
  with Cons.IH [OF ys(3)] ys show ?case by (simp split: option.splits)
qed

lemma callsOfRun_static:
  assumes "static s = static s'"
  shows "callsOfRun defs jsonParse env s i = callsOfRun defs jsonParse env s' i"
proof -
  from assms have m: "map core (transactions s) = map core (transactions s')"
    and a: "accounts s = accounts s'" and n: "currentNetwork s = currentNetwork s'"
    by (simp_all add: static_def)
  show ?thesis
  proof (cases "find (\<lambda>t. id_tx t = i) (transactions s)")
    case None
    with find_core [OF m, of i] show ?thesis by (simp add: callsOfRun_def)
  next
    case (Some tx)
    with find_core [OF m, of i] obtain tx' where
      f: "find (\<lambda>t. id_tx t = i) (transactions s') = Some tx'" and c: "core tx = core tx'"
      by auto
    from c have ty: "type_tx tx = type_tx tx'" by (simp add: core_def)
    show ?thesis
      by (simp add: callsOfRun_def Some f ty a n build_core [OF c] split: option.splits)
  qed
qed

lemma callsOfRun_trace:
  "callsOfRun defs jsonParse env (s\<lparr>trace := tr\<rparr>) i = callsOfRun defs jsonParse env s i"
  by (simp add: callsOfRun_def split: option.splits)

lemma runSingleTestBody_calls:
  "trace (runSingleTestBody defs jsonParse env i s) = trace s @ callsOfRun defs jsonParse env s i"
  by (simp add: runSingleTestBody_def callsOfRun_def Let_def split_beta
        split: option.splits)

lemma runSingleTest_calls:
  "trace (runSingleTest defs jsonParse env i s) =
     trace s @ Called i # callsOfRun defs jsonParse env s i @ [Returned i]"
  by (simp add: runSingleTest_def Let_def runSingleTestBody_calls callsOfRun_trace)

lemma callsOfRun_no_boundary: "filter isBoundary (callsOfRun defs jsonParse env s i) = []"
  by (simp add: callsOfRun_def clientSession_no_boundary split: option.splits)

lemma modifyFirst_map_core:
  "(\<And>x. core (f x) = core x) \<Longrightarrow> map core (modifyFirst p f xs) = map core xs"
  by (rule modifyFirst_map_id)

lemma runSingleTestBody_static:
  "static (runSingleTestBody defs jsonParse env i s) = static s"
proof (cases "find (\<lambda>t. id_tx t = i) (transactions s)")
  case None
  then show ?thesis by (simp add: runSingleTestBody_def)
next
  case (Some tx)
  show ?thesis
  proof (cases "type_tx tx")
    case None
    show ?thesis
      by (auto simp add: runSingleTestBody_no_type [OF Some None] static_def core_def intro!: modifyFirst_map_core)
  next
    case ty: (Some ty)
    show ?thesis
    proof (cases "ty = []")
      case True
      with ty have e: "type_tx tx = Some []" by simp
      show ?thesis
        by (auto simp add: runSingleTestBody_empty_type [OF Some e] static_def core_def intro!: modifyFirst_map_core)
    next
      case ne: False
      show ?thesis
      proof (cases "find (\<lambda>acc. seed acc \<noteq> None \<and> seed acc \<noteq> Some []) (accounts s)")
        case None
        show ?thesis
          by (auto simp add: runSingleTestBody_no_account [OF Some ty ne None] static_def core_def intro!: modifyFirst_map_core)
      next
        case acc: (Some signingAccount)
        obtain calls outcome where c:
          "clientSession env (map_of NETWORK_ENDPOINTS (currentNetwork s))
             (buildTransactionObjectFromTest defs jsonParse tx) = (calls, outcome)"
          by (cases "clientSession env (map_of NETWORK_ENDPOINTS (currentNetwork s))
             (buildTransactionObjectFromTest defs jsonParse tx)") auto
        show ?thesis
        proof (cases outcome)
          case (Inl message)
          show ?thesis
            by (auto simp add: runSingleTestBody_thrown [OF Some ty ne acc c [unfolded Inl]] static_def core_def intro!: modifyFirst_map_core)
        next
          case (Inr res)
          obtain result h where r: "res = (result, h)" by (cases res) auto
          show ?thesis
            by (auto simp add: runSingleTestBody_answered [OF Some ty ne acc c [unfolded Inr r]] static_def core_def intro!: modifyFirst_map_core)
        qed
      qed
    qed
  qed
qed

lemma runSingleTest_static: "static (runSingleTest defs jsonParse env i s) = static s"
proof -
  have "static (runSingleTest defs jsonParse env i s) =
        static (runSingleTestBody defs jsonParse env i (s\<lparr>trace := trace s @ [Called i]\<rparr>))"
    by (simp add: runSingleTest_def Let_def static_def)
  also have "\<dots> = static (s\<lparr>trace := trace s @ [Called i]\<rparr>)"
    by (rule runSingleTestBody_static)
  also have "\<dots> = static s" by (simp add: static_def)
  finally show ?thesis .
qed

lemma runEach_full:
  "static s = static s0 \<Longrightarrow>
   trace (runEach defs jsonParse envs k ids s) =
     trace s @
     concat (map (\<lambda>(j, i). Called i # callsOfRun defs jsonParse (envs j) s0 i @ [Returned i])
               (enumerate k ids))"
proof (induction ids arbitrary: k s)
  case Nil
  then show ?case by simp
next
  case (Cons i ids)
  let ?s = "runSingleTest defs jsonParse (envs k) i s"
  have st: "static ?s = static s0" using runSingleTest_static Cons.prems by simp
  have c: "callsOfRun defs jsonParse (envs k) s i = callsOfRun defs jsonParse (envs k) s0 i"
    by (rule callsOfRun_static [OF Cons.prems])
  show ?case
    by (simp add: Cons.IH [OF st] runSingleTest_calls c)
qed

lemma static_reset: "static (s\<lparr>transactions := map resetTest (transactions s)\<rparr>) = static s"
  by (simp add: static_def core_def resetTest_def comp_def)

lemma runAllTests_full:
  "trace (runAllTests defs jsonParse envs s) =
     trace s @
     concat (map (\<lambda>(j, i). Called i # callsOfRun defs jsonParse (envs j) s i @ [Returned i])
               (enumerate 0 (map id_tx (transactions s))))"
proof -
  let ?s0 = "s\<lparr>transactions := map resetTest (transactions s)\<rparr>"
  have "runAllTests defs jsonParse envs s =
          runEach defs jsonParse envs 0 (map id_tx (transactions s)) ?s0"
    by (simp add: runAllTests_def Let_def comp_def)
  then show ?thesis using runEach_full [OF static_reset] by simp
qed

subsection \<open>The batch run\<close>

text \<open>
  C3. \<^verbatim>\<open>runAllTests\<close> calls \<^verbatim>\<open>runSingleTest\<close> once for each test, in the order of the
  registry, and every call returns before the next one is made, whatever the outside
  answers: the trace of the batch is, test after test in that order, the call of the run,
  then the calls that this run makes to the network client, then its return, and nothing
  else; no client call lies outside the run that makes it. The ids of
  the registry stay as they are. The runs start from the registry in which every test has
  the status \<^verbatim>\<open>pending\<close> and no actualResult, hash or submittedAt, so the result does not
  depend on what these four fields held before. And when the ids
  of the registry are distinct, every test ends \<^verbatim>\<open>passed\<close> or \<^verbatim>\<open>failed\<close>, so the two counts
  sum to the number of tests (3 for a registry of 3 tests).
\<close>

theorem runAllTests_sequential:
  "trace (runAllTests defs jsonParse envs s) =
     trace s @
     concat (map (\<lambda>(k, i). Called i # callsOfRun defs jsonParse (envs k) s i @ [Returned i])
               (enumerate 0 (map id_tx (transactions s)))) \<and>
   filter isBoundary (callsOfRun defs jsonParse env s i) = [] \<and>
   filter isBoundary (trace (runAllTests defs jsonParse envs s)) =
     filter isBoundary (trace s) @
     concat (map (\<lambda>tx. [Called (id_tx tx), Returned (id_tx tx)]) (transactions s)) \<and>
   map id_tx (transactions (runAllTests defs jsonParse envs s)) = map id_tx (transactions s) \<and>
   runAllTests defs jsonParse envs s =
     runEach defs jsonParse envs 0 (map id_tx (transactions s))
       (s\<lparr>transactions :=
            map (\<lambda>tx. tx\<lparr>status := ''pending'', actualResult := None, hash := None,
                          submittedAt := None\<rparr>) (transactions s)\<rparr>) \<and>
   runAllTests defs jsonParse envs s =
     runAllTests defs jsonParse envs (s\<lparr>transactions := map resetTest (transactions s)\<rparr>) \<and>
   (distinct (map id_tx (transactions s)) \<longrightarrow>
      (\<forall>t \<in> set (transactions (runAllTests defs jsonParse envs s)).
         status t = ''passed'' \<or> status t = ''failed'') \<and>
      countStatus ''passed'' (transactions (runAllTests defs jsonParse envs s)) +
      countStatus ''failed'' (transactions (runAllTests defs jsonParse envs s)) =
        length (transactions s))"
proof (intro conjI impI)
  let ?s0 = "s\<lparr>transactions := map resetTest (transactions s)\<rparr>"
  have run: "runAllTests defs jsonParse envs s =
               runEach defs jsonParse envs 0 (map id_tx (transactions s)) ?s0"
    by (simp add: runAllTests_def Let_def comp_def)
  show "trace (runAllTests defs jsonParse envs s) =
     trace s @
     concat (map (\<lambda>(k, i). Called i # callsOfRun defs jsonParse (envs k) s i @ [Returned i])
               (enumerate 0 (map id_tx (transactions s))))"
    by (rule runAllTests_full)
  show "filter isBoundary (callsOfRun defs jsonParse env s i) = []"
    by (rule callsOfRun_no_boundary)
  show "filter isBoundary (trace (runAllTests defs jsonParse envs s)) =
     filter isBoundary (trace s) @
     concat (map (\<lambda>tx. [Called (id_tx tx), Returned (id_tx tx)]) (transactions s))"
    by (simp add: run runEach_boundary map_map comp_def)
  show ids: "map id_tx (transactions (runAllTests defs jsonParse envs s)) = map id_tx (transactions s)"
    by (simp add: run runEach_ids comp_def)
  show "runAllTests defs jsonParse envs s =
     runEach defs jsonParse envs 0 (map id_tx (transactions s))
       (s\<lparr>transactions :=
            map (\<lambda>tx. tx\<lparr>status := ''pending'', actualResult := None, hash := None,
                          submittedAt := None\<rparr>) (transactions s)\<rparr>)"
    unfolding run by (simp add: resetTest_def [abs_def])
  show "runAllTests defs jsonParse envs s = runAllTests defs jsonParse envs ?s0"
    by (simp add: runAllTests_def Let_def comp_def)
  assume d: "distinct (map id_tx (transactions s))"
  have d0: "distinct (map id_tx (transactions ?s0))" using d by (simp add: comp_def)
  have sub: "set (map id_tx (transactions s)) \<subseteq> id_tx ` set (transactions ?s0)"
    by (simp add: comp_def image_image)
  have "\<forall>t \<in> set (transactions (runEach defs jsonParse envs 0 (map id_tx (transactions s)) ?s0)).
          id_tx t \<in> {} \<union> set (map id_tx (transactions s)) \<longrightarrow> finished t"
    by (rule runEach_finished [OF d0 sub]) simp
  then have fin: "\<forall>t \<in> set (transactions (runAllTests defs jsonParse envs s)). finished t"
    using ids by (metis run Un_empty_left image_eqI list.set_map)
  then show all: "\<forall>t \<in> set (transactions (runAllTests defs jsonParse envs s)).
         status t = ''passed'' \<or> status t = ''failed''"
    by (simp add: finished_def)
  have "length (transactions (runAllTests defs jsonParse envs s)) = length (transactions s)"
    using ids by (metis length_map)
  moreover have "countStatus ''passed'' (transactions (runAllTests defs jsonParse envs s)) +
      countStatus ''failed'' (transactions (runAllTests defs jsonParse envs s)) =
      length (transactions (runAllTests defs jsonParse envs s))"
    unfolding countStatus_def by (rule count_partition) (use all in auto)
  ultimately show "countStatus ''passed'' (transactions (runAllTests defs jsonParse envs s)) +
      countStatus ''failed'' (transactions (runAllTests defs jsonParse envs s)) =
        length (transactions s)"
    by simp
qed

theorem runAllTests_sequential_witness:
  "distinct (map id_tx (transactions (sampleState sampleRegistry))) \<and>
   length (transactions (sampleState sampleRegistry)) = 3 \<and>
   countStatus ''passed'' (transactions
       (runAllTests sampleFields sampleParse sampleEnvs (sampleState sampleRegistry))) +
   countStatus ''failed'' (transactions
       (runAllTests sampleFields sampleParse sampleEnvs (sampleState sampleRegistry))) = 3 \<and>
   filter isBoundary
     (trace (runAllTests sampleFields sampleParse sampleEnvs (sampleState sampleRegistry))) =
     [Called ''tx-1'', Returned ''tx-1'', Called ''tx-2'', Returned ''tx-2'',
      Called ''tx-3'', Returned ''tx-3''] \<and>
   map id_tx (transactions
       (runAllTests sampleFields sampleParse sampleEnvs (sampleState sampleRegistry))) =
     [''tx-1'', ''tx-2'', ''tx-3''] \<and>
   map status (transactions
       (runAllTests sampleFields sampleParse sampleEnvs (sampleState sampleRegistry))) =
     [''failed'', ''passed'', ''failed''] \<and>
   trace (runAllTests sampleFields sampleParse sampleEnvs (sampleState sampleRegistry)) =
     [Called ''tx-1'', Returned ''tx-1'',
      Called ''tx-2'', Connect (Some ''wss://s.altnet.rippletest.net:51233''), LedgerRequest,
      SubmitAndWait
        [(''TransactionType'', JStr ''Payment''),
         (''Destination'', JStr ''rLHzPsX6oXkzU9rFkRrJYTetvcqrKKKKKK''),
         (''Amount'', JStr ''1000000''),
         (''Account'', JStr ''rN7n7otQDd6FczFgLdlqtyMVrn3HMfgnHf''),
         (''LastLedgerSequence'', JNum 1005)],
      Disconnect, Returned ''tx-2'',
      Called ''tx-3'', Connect (Some ''wss://s.altnet.rippletest.net:51233''), LedgerRequest,
      SubmitAndWait
        [(''TransactionType'', JStr ''Payment''),
         (''Destination'', JStr ''rLHzPsX6oXkzU9rFkRrJYTetvcqrKKKKKK''),
         (''Amount'', JStr ''1000000''),
         (''Account'', JStr ''rN7n7otQDd6FczFgLdlqtyMVrn3HMfgnHf''),
         (''LastLedgerSequence'', JNum 1005)],
      Returned ''tx-3'']"
proof -
  have a: "map id_tx (transactions (sampleState sampleRegistry)) = [''tx-1'', ''tx-2'', ''tx-3'']"
    by (simp add: sampleState_def sampleRegistry_def samplePayment_def createTransaction_def)
  have b: "trace (sampleState sampleRegistry) = []" by (simp add: sampleState_def)
  have c: "map status (transactions
       (runAllTests sampleFields sampleParse sampleEnvs (sampleState sampleRegistry))) =
     [''failed'', ''passed'', ''failed'']"
    by code_simp
  have d: "map (\<lambda>tx. [Called (id_tx tx), Returned (id_tx tx)]) (transactions (sampleState sampleRegistry)) =
      map (\<lambda>i. [Called i, Returned i]) (map id_tx (transactions (sampleState sampleRegistry)))"
    by (simp add: comp_def)
  have e: "length (transactions (sampleState sampleRegistry)) = 3"
    using a by (metis length_map length_Cons list.size(3) numeral_3_eq_3)
  note t0 = runAllTests_sequential [where defs = sampleFields and jsonParse = sampleParse
        and envs = sampleEnvs and s = "sampleState sampleRegistry"]
  note t = t0 [THEN conjunct2, THEN conjunct2]
  have c1: "callsOfRun sampleFields sampleParse (sampleEnvs 0) (sampleState sampleRegistry) ''tx-1'' = []"
    by code_simp
  have c2: "callsOfRun sampleFields sampleParse (sampleEnvs (Suc 0)) (sampleState sampleRegistry) ''tx-2'' =
     [Connect (Some ''wss://s.altnet.rippletest.net:51233''), LedgerRequest,
      SubmitAndWait
        [(''TransactionType'', JStr ''Payment''),
         (''Destination'', JStr ''rLHzPsX6oXkzU9rFkRrJYTetvcqrKKKKKK''),
         (''Amount'', JStr ''1000000''),
         (''Account'', JStr ''rN7n7otQDd6FczFgLdlqtyMVrn3HMfgnHf''),
         (''LastLedgerSequence'', JNum 1005)],
      Disconnect]"
    by code_simp
  have c3: "callsOfRun sampleFields sampleParse (sampleEnvs (Suc (Suc 0))) (sampleState sampleRegistry) ''tx-3'' =
     [Connect (Some ''wss://s.altnet.rippletest.net:51233''), LedgerRequest,
      SubmitAndWait
        [(''TransactionType'', JStr ''Payment''),
         (''Destination'', JStr ''rLHzPsX6oXkzU9rFkRrJYTetvcqrKKKKKK''),
         (''Amount'', JStr ''1000000''),
         (''Account'', JStr ''rN7n7otQDd6FczFgLdlqtyMVrn3HMfgnHf''),
         (''LastLedgerSequence'', JNum 1005)]]"
    by code_simp
  have k0: "trace (runAllTests sampleFields sampleParse sampleEnvs (sampleState sampleRegistry)) =
     [Called ''tx-1'', Returned ''tx-1'',
      Called ''tx-2'', Connect (Some ''wss://s.altnet.rippletest.net:51233''), LedgerRequest,
      SubmitAndWait
        [(''TransactionType'', JStr ''Payment''),
         (''Destination'', JStr ''rLHzPsX6oXkzU9rFkRrJYTetvcqrKKKKKK''),
         (''Amount'', JStr ''1000000''),
         (''Account'', JStr ''rN7n7otQDd6FczFgLdlqtyMVrn3HMfgnHf''),
         (''LastLedgerSequence'', JNum 1005)],
      Disconnect, Returned ''tx-2'',
      Called ''tx-3'', Connect (Some ''wss://s.altnet.rippletest.net:51233''), LedgerRequest,
      SubmitAndWait
        [(''TransactionType'', JStr ''Payment''),
         (''Destination'', JStr ''rLHzPsX6oXkzU9rFkRrJYTetvcqrKKKKKK''),
         (''Amount'', JStr ''1000000''),
         (''Account'', JStr ''rN7n7otQDd6FczFgLdlqtyMVrn3HMfgnHf''),
         (''LastLedgerSequence'', JNum 1005)],
      Returned ''tx-3'']"
    unfolding t0 [THEN conjunct1] a b by (simp add: c1 c2 c3)
  have da: "distinct (map id_tx (transactions (sampleState sampleRegistry)))"
    unfolding a by simp
  have k1: "filter isBoundary
     (trace (runAllTests sampleFields sampleParse sampleEnvs (sampleState sampleRegistry))) =
     [Called ''tx-1'', Returned ''tx-1'', Called ''tx-2'', Returned ''tx-2'',
      Called ''tx-3'', Returned ''tx-3'']"
    using t [THEN conjunct1] b unfolding d a by simp
  have k2: "map id_tx (transactions
       (runAllTests sampleFields sampleParse sampleEnvs (sampleState sampleRegistry))) =
     [''tx-1'', ''tx-2'', ''tx-3'']"
    using t [THEN conjunct2, THEN conjunct1] unfolding a .
  have k4: "countStatus ''passed'' (transactions
       (runAllTests sampleFields sampleParse sampleEnvs (sampleState sampleRegistry))) +
   countStatus ''failed'' (transactions
       (runAllTests sampleFields sampleParse sampleEnvs (sampleState sampleRegistry))) = 3"
    using t [THEN conjunct2, THEN conjunct2, THEN conjunct2, THEN conjunct2] da e by simp
  show ?thesis
    by (intro conjI da e k4 k1 k2 c k0)
qed

subsection \<open>The pass rate\<close>

lemma roundEven_err: "\<bar>of_int (roundEven m) - m\<bar> \<le> 1 / 2"
proof -
  have "of_int \<lfloor>m\<rfloor> \<le> m" "m < of_int \<lfloor>m\<rfloor> + 1" by linarith+
  then show ?thesis by (auto simp: roundEven_def Let_def)
qed

lemma ilog2_lower:
  assumes "0 < x"
  shows "2 powi (ilog2 x) \<le> x"
proof -
  obtain a b where q: "quotient_of x = (a, b)" by (cases "quotient_of x") auto
  have b: "0 < b" by (rule quotient_of_denom_pos [OF q])
  have x: "x = of_int a / of_int b" by (rule quotient_of_div [OF q])
  have a: "0 < a" using assms b x by (simp add: zero_less_divide_iff)
  let ?d = "bitlen a - bitlen b"
  show ?thesis
  proof (cases "2 powi ?d \<le> x")
    case True
    then show ?thesis by (simp add: ilog2_def q Let_def)
  next
    case False
    have la: "1 \<le> bitlen a" using a by (simp add: bitlen_alt_def)
    have lb: "0 \<le> bitlen b" by (rule bitlen_nonneg)
    have "(2::int) ^ nat (bitlen a - 1) \<le> a" using bitlen_bounds [OF a] by simp
    then have "(of_int ((2::int) ^ nat (bitlen a - 1)) :: rat) \<le> of_int a"
      by (simp only: of_int_le_iff)
    then have a1: "(2::rat) powi (bitlen a - 1) \<le> of_int a"
      using la by (simp add: power_int_def)
    have "b \<le> (2::int) ^ nat (bitlen b)" using bitlen_bounds [OF b] by simp
    then have "(of_int b :: rat) \<le> of_int ((2::int) ^ nat (bitlen b))"
      by (simp only: of_int_le_iff)
    then have b1: "(of_int b :: rat) \<le> 2 powi (bitlen b)"
      using lb by (simp add: power_int_def)
    have "(2::rat) powi (?d - 1) = 2 powi (bitlen a - 1) / 2 powi (bitlen b)"
      using power_int_diff [of "2::rat" "bitlen a - 1" "bitlen b"] by (simp add: algebra_simps)
    also have "\<dots> \<le> of_int a / 2 powi (bitlen b)"
      by (rule divide_right_mono [OF a1]) simp
    also have "\<dots> \<le> of_int a / of_int b"
      by (rule divide_left_mono [OF b1]) (use a b in simp_all)
    finally have "(2::rat) powi (?d - 1) \<le> x" using x by simp
    with False show ?thesis by (simp add: ilog2_def q Let_def)
  qed
qed

lemma ilog2_upper:
  assumes "0 < x"
  shows "x < 2 powi (ilog2 x + 1)"
proof -
  obtain a b where q: "quotient_of x = (a, b)" by (cases "quotient_of x") auto
  have b: "0 < b" by (rule quotient_of_denom_pos [OF q])
  have x: "x = of_int a / of_int b" by (rule quotient_of_div [OF q])
  have a: "0 < a" using assms b x by (simp add: zero_less_divide_iff)
  let ?d = "bitlen a - bitlen b"
  show ?thesis
  proof (cases "2 powi ?d \<le> x")
    case False
    then show ?thesis by (simp add: ilog2_def q Let_def)
  next
    case True
    have la: "0 \<le> bitlen a" by (rule bitlen_nonneg)
    have lb: "1 \<le> bitlen b" using b by (simp add: bitlen_alt_def)
    have "a < (2::int) ^ nat (bitlen a)" using bitlen_bounds [OF a] by simp
    then have "(of_int a :: rat) < of_int ((2::int) ^ nat (bitlen a))"
      by (simp only: of_int_less_iff)
    then have a1: "(of_int a :: rat) < 2 powi (bitlen a)"
      using la by (simp add: power_int_def)
    have "(2::int) ^ nat (bitlen b - 1) \<le> b" using bitlen_bounds [OF b] by simp
    then have "(of_int ((2::int) ^ nat (bitlen b - 1)) :: rat) \<le> of_int b"
      by (simp only: of_int_le_iff)
    then have b1: "(2::rat) powi (bitlen b - 1) \<le> of_int b"
      using lb by (simp add: power_int_def)
    have "of_int a / of_int b \<le> of_int a / (2::rat) powi (bitlen b - 1)"
      by (rule divide_left_mono [OF b1]) (use a b in simp_all)
    also have "\<dots> < 2 powi (bitlen a) / (2::rat) powi (bitlen b - 1)"
      by (rule divide_strict_right_mono [OF a1]) simp
    also have "\<dots> = 2 powi (?d + 1)"
      using power_int_diff [of "2::rat" "bitlen a" "bitlen b - 1"] by (simp add: algebra_simps)
    finally have "x < 2 powi (?d + 1)" using x by simp
    with True show ?thesis by (simp add: ilog2_def q Let_def)
  qed
qed

lemma roundToDouble_err:
  assumes "0 < x"
  shows "\<bar>roundToDouble x - x\<bar> \<le> x / 2 ^ 53"
proof -
  define u where "u = (2::rat) powi (ilog2 x - 52)"
  have u: "0 < u" by (simp add: u_def)
  have fl: "roundToDouble x = of_int (roundEven (x / u)) * u"
    using assms by (simp add: roundToDouble_def u_def Let_def)
  have "(of_int (roundEven (x / u)) - x / u) * u = roundToDouble x - x"
    using u by (simp add: fl left_diff_distrib)
  then have "\<bar>roundToDouble x - x\<bar> = \<bar>of_int (roundEven (x / u)) - x / u\<bar> * \<bar>u\<bar>"
    by (simp only: abs_mult [symmetric])
  also have "\<dots> = \<bar>of_int (roundEven (x / u)) - x / u\<bar> * u"
    using u by simp
  also have "\<dots> \<le> 1 / 2 * u"
    by (rule mult_right_mono [OF roundEven_err]) (use u in simp)
  also have "1 / 2 * u = 2 powi (ilog2 x) / 2 ^ 53"
    using power_int_diff [of "2::rat" "ilog2 x" 53]
      power_int_diff [of "2::rat" "ilog2 x" 52] by (simp add: u_def)
  also have "\<dots> \<le> x / 2 ^ 53"
    by (rule divide_right_mono [OF ilog2_lower [OF assms]]) simp
  finally show ?thesis .
qed

lemma passRateOf_zero: "0 < t \<Longrightarrow> passRateOf 0 t = 0"
  by (simp add: passRateOf_def roundToDouble_def mathRound_def floor_eq_iff)

lemma passRateOf_near:
  assumes pt: "p \<le> t" and t0: "0 < t" and tb: "t < 2 ^ 32"
  shows "\<bar>of_int (passRateOf p t) - 100 * of_nat p / of_nat t\<bar> \<le> (1 / 2 :: rat)"
proof (cases "p = 0")
  case True
  then show ?thesis using t0 by (simp add: passRateOf_zero)
next
  case False
  define T :: rat where "T = of_nat t"
  define P :: rat where "P = of_nat p"
  define q where "q = P / T"
  define x1 where "x1 = roundToDouble q"
  define y where "y = x1 * 100"
  define x2 where "x2 = roundToDouble y"
  define n where "n = passRateOf p t"
  have T: "0 < T" "T < 2 ^ 32" using t0 tb unfolding T_def
    by (simp, metis of_nat_less_iff of_nat_numeral of_nat_power)
  have P: "0 < P" "P \<le> T" using False pt by (simp_all add: P_def T_def)
  have q: "0 < q" "q \<le> 1" using T P by (simp_all add: q_def)
  have e1: "\<bar>x1 - q\<bar> \<le> q / 2 ^ 53" unfolding x1_def by (rule roundToDouble_err [OF q(1)])
  have "q / 2 ^ 53 < q" using q(1) by simp
  with e1 have x1: "0 < x1" "x1 \<le> 2 * q" by linarith+
  have y: "0 < y" "y \<le> 200 * q" using x1 by (simp_all add: y_def)
  have e2: "\<bar>x2 - y\<bar> \<le> y / 2 ^ 53" unfolding x2_def by (rule roundToDouble_err [OF y(1)])
  have "y / 2 ^ 53 \<le> 200 * q / 2 ^ 53" using y(2) by (simp add: divide_right_mono)
  with e2 have e2': "\<bar>x2 - y\<bar> \<le> 200 * q / 2 ^ 53" by linarith
  have e1': "\<bar>y - 100 * q\<bar> \<le> 100 * q / 2 ^ 53"
  proof -
    have "\<bar>y - 100 * q\<bar> = 100 * \<bar>x1 - q\<bar>" by (simp add: y_def abs_if)
    also have "\<dots> \<le> 100 * (q / 2 ^ 53)" using e1 by simp
    finally show ?thesis by simp
  qed
  have "\<bar>x2 - 100 * q\<bar> \<le> 300 * q / 2 ^ 53" using e1' e2' by linarith
  also have "\<dots> \<le> 300 / 2 ^ 53" using q(2) by (simp add: divide_right_mono)
  finally have d: "\<bar>x2 - 100 * q\<bar> \<le> 300 / 2 ^ 53" .
  have n: "n = \<lfloor>x2 + 1 / 2\<rfloor>"
    using t0 by (simp add: n_def passRateOf_def mathRound_def x2_def y_def x1_def q_def P_def T_def)
  have fl: "of_int n \<le> x2 + 1 / 2" "x2 + 1 / 2 < of_int n + 1" unfolding n by linarith+
  have qT: "q * T = P" using T by (simp add: q_def)
  define Z :: int where "Z = 2 * n * int t - 200 * int p"
  have Z: "(of_int Z :: rat) = 2 * T * (of_int n - 100 * q)"
    using qT by (simp add: Z_def T_def P_def algebra_simps)
  have dT: "2 * T * (300 / 2 ^ 53) < 1" using T(2) by simp
  have up: "of_int n - 100 * q \<le> 1 / 2 + 300 / 2 ^ 53" using fl(1) d by linarith
  have lo: "- (1 / 2) - 300 / 2 ^ 53 < of_int n - 100 * q" using fl(2) d by linarith
  have "(of_int Z :: rat) \<le> 2 * T * (1 / 2 + 300 / 2 ^ 53)"
    unfolding Z by (rule mult_left_mono [OF up]) (use T(1) in simp)
  also have "\<dots> = T + 2 * T * (300 / 2 ^ 53)" by (simp add: algebra_simps)
  also have "\<dots> < T + 1" using dT by simp
  finally have "(of_int Z :: rat) < of_int (int t + 1)" by (simp add: T_def)
  then have "Z < int t + 1" by (simp only: of_int_less_iff)
  then have Zu: "Z \<le> int t" by simp
  have "2 * T * (- (1 / 2) - 300 / 2 ^ 53) < (of_int Z :: rat)"
    unfolding Z by (rule mult_strict_left_mono [OF lo]) (use T(1) in simp)
  moreover have "2 * T * (- (1 / 2) - 300 / 2 ^ 53) = - T - 2 * T * (300 / 2 ^ 53)"
    by (simp add: algebra_simps)
  ultimately have "- T - 1 < (of_int Z :: rat)" using dT by linarith
  then have "(of_int (- int t - 1) :: rat) < of_int Z" by (simp add: T_def)
  then have "- int t - 1 < Z" by (simp only: of_int_less_iff)
  then have Zl: "- int t \<le> Z" by simp
  have "\<bar>(of_int Z :: rat)\<bar> \<le> T"
    using Zu Zl unfolding T_def by (metis abs_le_iff minus_le_iff of_int_abs of_int_le_iff of_int_minus of_int_of_nat_eq)
  then have "2 * T * \<bar>of_int n - 100 * q\<bar> \<le> T"
    unfolding Z using T(1) by (simp add: abs_mult)
  then have "\<bar>of_int n - 100 * q\<bar> \<le> 1 / 2" using T(1) by simp
  then show ?thesis by (simp add: n_def q_def P_def T_def)
qed

lemma countStatus_le: "countStatus st txs \<le> length txs"
  by (simp add: countStatus_def)

text \<open>
  C9, as amended. The aggregator computes \<^verbatim>\<open>Math.round((passed / total) * 100)\<close> on doubles,
  and 0 when \<open>total = 0\<close>. For a registry (an array, so of fewer than \<open>2 ^ 32\<close> tests) the
  result is an integer nearest to \<open>100 * passed / total\<close>: it is the specification's
  \<open>round(100 * passed / total)\<close> whenever that quotient is not halfway between two
  integers, and otherwise that or one less. 2 passed of 3 gives 67, and 0 of 0 gives 0.
\<close>

theorem passRate_nearest:
  assumes "length txs < 2 ^ 32"
  shows "(length txs = 0 \<longrightarrow> passRate txs = 0) \<and>
         (0 < length txs \<longrightarrow>
            \<bar>of_int (passRate txs) -
               100 * of_nat (countStatus ''passed'' txs) / of_nat (length txs)\<bar> \<le> (1 / 2 :: rat)) \<and>
         (0 < length txs \<and>
          of_int (passRateSpec txs) \<noteq>
            100 * of_nat (countStatus ''passed'' txs) / of_nat (length txs) + (1 / 2 :: rat) \<longrightarrow>
            passRate txs = passRateSpec txs) \<and>
         (passRate txs = passRateSpec txs \<or> passRate txs = passRateSpec txs - 1) \<and>
         passRateOf 2 3 = 67 \<and> passRateOf 0 0 = 0"
proof -
  define X :: rat where "X = 100 * of_nat (countStatus ''passed'' txs) / of_nat (length txs)"
  have z: "length txs = 0 \<Longrightarrow> passRate txs = 0"
    by (simp add: passRate_def passRateOf_def)
  have zs: "length txs = 0 \<Longrightarrow> passRateSpec txs = 0"
    by (simp add: passRateSpec_def)
  have near: "\<bar>of_int (passRate txs) - X\<bar> \<le> 1 / 2" if "0 < length txs"
    unfolding passRate_def X_def by (rule passRateOf_near [OF countStatus_le that assms])
  have spec: "passRateSpec txs = \<lfloor>X + 1 / 2\<rfloor>" if "0 < length txs"
    using that by (simp add: passRateSpec_def mathRound_def X_def)
  have up: "passRate txs \<le> passRateSpec txs" if "0 < length txs"
  proof -
    have "of_int (passRate txs) \<le> X + 1 / 2" using near [OF that] by linarith
    then show ?thesis unfolding spec [OF that] by (simp only: le_floor_iff)
  qed
  have lo: "passRateSpec txs - 1 \<le> passRate txs" if "0 < length txs"
  proof -
    have f1: "of_int \<lfloor>X + 1 / 2\<rfloor> \<le> X + 1 / 2" by (rule of_int_floor_le)
    have f2: "X - 1 / 2 \<le> of_int (passRate txs)" using near [OF that] by linarith
    have "(of_int \<lfloor>X + 1 / 2\<rfloor> :: rat) - 1 \<le> of_int (passRate txs)"
      using f1 f2 by linarith
    then have "(of_int (\<lfloor>X + 1 / 2\<rfloor> - 1) :: rat) \<le> of_int (passRate txs)" by simp
    then show ?thesis unfolding spec [OF that] by (simp only: of_int_le_iff)
  qed
  have exact: "passRate txs = passRateSpec txs"
    if "0 < length txs" and ne: "of_int (passRateSpec txs) \<noteq> X + 1 / 2"
  proof -
    have f1: "of_int \<lfloor>X + 1 / 2\<rfloor> \<le> X + 1 / 2" by (rule of_int_floor_le)
    with ne have f3: "of_int \<lfloor>X + 1 / 2\<rfloor> < X + 1 / 2" unfolding spec [OF that(1)] by linarith
    have f2: "X - 1 / 2 \<le> of_int (passRate txs)" using near [OF that(1)] by linarith
    have "(of_int \<lfloor>X + 1 / 2\<rfloor> :: rat) - 1 < of_int (passRate txs)"
      using f3 f2 by linarith
    then have "(of_int (\<lfloor>X + 1 / 2\<rfloor> - 1) :: rat) < of_int (passRate txs)" by simp
    then have "\<lfloor>X + 1 / 2\<rfloor> - 1 < passRate txs" by (simp only: of_int_less_iff)
    with up [OF that(1)] show ?thesis unfolding spec [OF that(1)] by linarith
  qed
  have either: "passRate txs = passRateSpec txs \<or> passRate txs = passRateSpec txs - 1"
  proof (cases "length txs = 0")
    case True
    from z [OF True] zs [OF True] show ?thesis by simp
  next
    case False
    then have "0 < length txs" by simp
    from up [OF this] lo [OF this] show ?thesis by linarith
  qed
  have ex1: "passRateOf 2 3 = 67" by code_simp
  have ex2: "passRateOf 0 0 = 0" by (simp add: passRateOf_def)
  show ?thesis
    using z near exact either ex1 ex2 unfolding X_def by blast
qed

theorem passRate_nearest_witness:
  "length (gradedTests 3 2) < 2 ^ 32 \<and>
   countStatus ''passed'' (gradedTests 3 2) = 2 \<and> countStatus ''failed'' (gradedTests 3 2) = 1 \<and>
   passRateSpec (gradedTests 3 2) = 67 \<and>
   passRate (gradedTests 3 2) = 67 \<and>
   passRate [] = 0"
proof -
  have a: "length (gradedTests 3 2) < 2 ^ 32" by (simp add: gradedTests_def)
  have b: "length ([] :: transaction list) < 2 ^ 32" by simp
  have c: "countStatus ''passed'' (gradedTests 3 2) = 2" by code_simp
  have d: "countStatus ''failed'' (gradedTests 3 2) = 1" by code_simp
  have e: "passRateSpec (gradedTests 3 2) = 67" by code_simp
  have f: "length (gradedTests 3 2) = 3" by (simp add: gradedTests_def)
  have "passRate (gradedTests 3 2) = passRateSpec (gradedTests 3 2)"
    by (rule passRate_nearest [OF a, THEN conjunct2, THEN conjunct2, THEN conjunct1, THEN mp])
       (simp add: c e f)
  moreover have "passRate [] = 0"
    by (rule passRate_nearest [OF b, THEN conjunct1, THEN mp]) simp
  ultimately show ?thesis using a c d e by simp
qed

text \<open>
  The claim as stated fails on a tie: with 23 tests passed of 40 the quotient is 57.5,
  which rounds to 58, and the doubles give \<open>0.575 * 100 = 57.49999999999999\<close> and so 57.
\<close>

theorem passRate_round_counterexample:
  "countStatus ''passed'' (gradedTests 40 23) = 23 \<and> length (gradedTests 40 23) = 40 \<and>
   passRate (gradedTests 40 23) = 57 \<and>
   passRateSpec (gradedTests 40 23) = 58 \<and>
   (100 * 23 / 40 :: rat) = 115 / 2"
  by code_simp

end
